theory Spec2Isabelle
  imports Main
begin

section \<open>The Kanban board of script.js\<close>

text \<open>
  The script keeps its whole state in the document: the columns, the cards they hold, the
  dialog with its two fields, two script variables (\<open>draggedCard\<close>, \<open>editingCard\<close>) and one
  item of \<open>localStorage\<close>. The model below is a record of exactly that, every handler of
  the script is a function on it, and an event is a value of a datatype.

  Cards are nodes with identity: the script keeps references to them and mutates them in
  place. They live in a store indexed by addresses; a column lists the addresses of its
  cards in display order.

  Characters are the code units below 256.
\<close>

subsection \<open>Constants\<close>

definition UPDATE_ALLOWED_COLUMNS :: "string list" where
  "UPDATE_ALLOWED_COLUMNS = [''backlog'', ''todo'']"

definition STORAGE_KEY :: string where
  "STORAGE_KEY = ''kanban_data''"

subsection \<open>Data\<close>

text \<open>One entry of a persisted column: \<open>{title: ..., desc: ...}\<close>.\<close>

record task =
  title :: string
  desc :: string

text \<open>
  The persisted object \<open>{columnId: [task, ...]}\<close>: its properties in insertion order.
  A key is read with \<open>map_of\<close>; the lists that \<open>saveData\<close> writes name no key twice.
\<close>

type_synonym snapshot = "(string \<times> task list) list"

text \<open>
  The \<open>.card-actions\<close> region of a card holds buttons, in order: those of class
  \<open>update\<close> and those of class \<open>delete\<close>.
\<close>

datatype button = Update | Delete

text \<open>
  A card: the text content of its \<open>h3\<close> and of its \<open>p\<close>, the buttons of its action
  region (a card may have no such region: \<open>updateCardButtons\<close> checks for it), the class
  \<open>dragging\<close>, and how many times \<open>attachDragEvents\<close> has run on it.
\<close>

record card =
  h3_text :: string
  p_text :: string
  card_actions :: "button list option"
  dragging :: bool
  drag_listeners :: nat

text \<open>
  A column: its id, the number shown in the \<open>span\<close> of its header (a column may have no
  such span: \<open>updateCount\<close> checks for it), its cards in display order, and the class
  \<open>drag-over\<close>.
\<close>

record column =
  col_id :: string
  count_span :: "nat option"
  children :: "nat list"
  drag_over :: bool

record state =
  columns :: "column list"
  cards :: "nat \<Rightarrow> card"
  next_node :: nat
  draggedCard :: "nat option"
  editingCard :: "nat option"
  modal_hidden :: bool
  modalTitle :: string
  modalSubmitBtn :: string
  task_title :: string
  task_desc :: string
  title_default :: string
  desc_default :: string
  localStorage :: "string \<Rightarrow> snapshot option"
  writes :: nat

text \<open>
  \<open>next_node\<close> is the address the next created card gets; \<open>title_default\<close> and
  \<open>desc_default\<close> are the values \<open>addTaskForm.reset()\<close> puts back into the two fields
  (given by the markup); \<open>writes\<close> counts the calls of \<open>localStorage.setItem\<close>, which
  are taken to succeed. The stored item is kept as the object it describes: what
  \<open>JSON.parse\<close> returns for it, \<open>None\<close> when there is no item.
\<close>

datatype error = TypeError | Unmodelled_markup

subsection \<open>Strings\<close>

text \<open>\<open>String.prototype.trim\<close>: white space and line terminators, at both ends.\<close>

definition js_whitespace :: "char \<Rightarrow> bool" where
  "js_whitespace c \<longleftrightarrow>
     c \<in> set [CHR 0x09, CHR 0x0A, CHR 0x0B, CHR 0x0C, CHR 0x0D, CHR 0x20, CHR 0xA0]"

definition trim :: "string \<Rightarrow> string" where
  "trim str = rev (dropWhile js_whitespace (rev (dropWhile js_whitespace str)))"

text \<open>
  \<open>createCardDOM\<close> writes the title and the description into a template that it assigns
  to \<open>innerHTML\<close>, so the browser parses them as HTML; \<open>saveData\<close> and \<open>openEditModal\<close>
  read the result back as \<open>textContent\<close>. \<open>html_scan\<close> follows the tokenizer of the HTML
  standard through a title or a description, as far as a card keeps the shape of the
  template:
  \<^item> a character stands for itself, also \<open><\<close> unless a letter, \<open>/\<close>, \<open>!\<close> or \<open>?\<close>
    follows it, and \<open>&\<close> unless it starts a character reference;
  \<^item> \<open>&\<close> and a name start a character reference when the name is, or begins with, one
    of the names that need no semicolon (\<open>legacy_refs\<close>: \<open>amp\<close>, \<open>lt\<close>, \<open>gt\<close>, \<open>quot\<close> and
    the names of the characters A0 to FF), and the reference stands for its character;
  \<^item> a comment, from \<open><!--\<close> to the first \<open>-->\<close> or \<open>--!>\<close> (or to a \<open>>\<close> or \<open>->\<close> that
    follows the opening at once), shows nothing; a comment that does not end in the text
    goes on to the end of the template;
  \<^item> CR LF and CR become LF, and NUL is dropped.
  Two kinds of text are outside the model (\<open>None\<close>, and \<open>Unmodelled_markup\<close> for the card):
  a \<open><\<close> with a letter, \<open>/\<close>, \<open>?\<close> or \<open>!\<close> after it (other than a comment), since a tag
  puts elements of its own into the card, which the record of a card has no place for; and
  \<open>&#\<close>, or \<open>&\<close> with a name not in \<open>legacy_refs\<close> and a semicolon, since most of these
  references stand for characters beyond FF. Where a title or description ends, the
  template goes on with \<open><\<close>.
\<close>

definition is_alpha :: "char \<Rightarrow> bool" where
  "is_alpha c \<longleftrightarrow>
     (65::nat) \<le> of_char c \<and> of_char c \<le> (90::nat) \<or>
     (97::nat) \<le> of_char c \<and> of_char c \<le> (122::nat)"

definition is_alnum :: "char \<Rightarrow> bool" where
  "is_alnum c \<longleftrightarrow> is_alpha c \<or> (48::nat) \<le> of_char c \<and> of_char c \<le> (57::nat)"

definition legacy_refs :: "(string \<times> char) list" where
  "legacy_refs =
     [(''amp'', CHR 0x26), (''lt'', CHR 0x3C), (''gt'', CHR 0x3E), (''quot'', CHR 0x22),
      (''AMP'', CHR 0x26), (''LT'', CHR 0x3C), (''GT'', CHR 0x3E), (''QUOT'', CHR 0x22),
      (''COPY'', CHR 0xA9), (''REG'', CHR 0xAE), (''nbsp'', CHR 0xA0), (''iexcl'', CHR 0xA1),
      (''cent'', CHR 0xA2), (''pound'', CHR 0xA3), (''curren'', CHR 0xA4), (''yen'', CHR 0xA5),
      (''brvbar'', CHR 0xA6), (''sect'', CHR 0xA7), (''uml'', CHR 0xA8), (''copy'', CHR 0xA9),
      (''ordf'', CHR 0xAA), (''laquo'', CHR 0xAB), (''not'', CHR 0xAC), (''shy'', CHR 0xAD),
      (''reg'', CHR 0xAE), (''macr'', CHR 0xAF), (''deg'', CHR 0xB0), (''plusmn'', CHR 0xB1),
      (''sup2'', CHR 0xB2), (''sup3'', CHR 0xB3), (''acute'', CHR 0xB4), (''micro'', CHR 0xB5),
      (''para'', CHR 0xB6), (''middot'', CHR 0xB7), (''cedil'', CHR 0xB8),
      (''sup1'', CHR 0xB9), (''ordm'', CHR 0xBA), (''raquo'', CHR 0xBB),
      (''frac14'', CHR 0xBC), (''frac12'', CHR 0xBD), (''frac34'', CHR 0xBE),
      (''iquest'', CHR 0xBF), (''Agrave'', CHR 0xC0), (''Aacute'', CHR 0xC1),
      (''Acirc'', CHR 0xC2), (''Atilde'', CHR 0xC3), (''Auml'', CHR 0xC4),
      (''Aring'', CHR 0xC5), (''AElig'', CHR 0xC6), (''Ccedil'', CHR 0xC7),
      (''Egrave'', CHR 0xC8), (''Eacute'', CHR 0xC9), (''Ecirc'', CHR 0xCA),
      (''Euml'', CHR 0xCB), (''Igrave'', CHR 0xCC), (''Iacute'', CHR 0xCD),
      (''Icirc'', CHR 0xCE), (''Iuml'', CHR 0xCF), (''ETH'', CHR 0xD0), (''Ntilde'', CHR 0xD1),
      (''Ograve'', CHR 0xD2), (''Oacute'', CHR 0xD3), (''Ocirc'', CHR 0xD4),
      (''Otilde'', CHR 0xD5), (''Ouml'', CHR 0xD6), (''times'', CHR 0xD7),
      (''Oslash'', CHR 0xD8), (''Ugrave'', CHR 0xD9), (''Uacute'', CHR 0xDA),
      (''Ucirc'', CHR 0xDB), (''Uuml'', CHR 0xDC), (''Yacute'', CHR 0xDD),
      (''THORN'', CHR 0xDE), (''szlig'', CHR 0xDF), (''agrave'', CHR 0xE0),
      (''aacute'', CHR 0xE1), (''acirc'', CHR 0xE2), (''atilde'', CHR 0xE3),
      (''auml'', CHR 0xE4), (''aring'', CHR 0xE5), (''aelig'', CHR 0xE6),
      (''ccedil'', CHR 0xE7), (''egrave'', CHR 0xE8), (''eacute'', CHR 0xE9),
      (''ecirc'', CHR 0xEA), (''euml'', CHR 0xEB), (''igrave'', CHR 0xEC),
      (''iacute'', CHR 0xED), (''icirc'', CHR 0xEE), (''iuml'', CHR 0xEF), (''eth'', CHR 0xF0),
      (''ntilde'', CHR 0xF1), (''ograve'', CHR 0xF2), (''oacute'', CHR 0xF3),
      (''ocirc'', CHR 0xF4), (''otilde'', CHR 0xF5), (''ouml'', CHR 0xF6),
      (''divide'', CHR 0xF7), (''oslash'', CHR 0xF8), (''ugrave'', CHR 0xF9),
      (''uacute'', CHR 0xFA), (''ucirc'', CHR 0xFB), (''uuml'', CHR 0xFC),
      (''yacute'', CHR 0xFD), (''thorn'', CHR 0xFE), (''yuml'', CHR 0xFF)]"

text \<open>The longest name of the table that the run of letters and digits begins with.\<close>

fun longest_ref :: "string \<Rightarrow> (string \<times> char) list \<Rightarrow> (nat \<times> char) option" where
  "longest_ref run [] = None"
| "longest_ref run ((name, c) # refs) =
     (let best = longest_ref run refs
      in if take (length name) run = name \<and>
            (case best of None \<Rightarrow> True | Some (n, _) \<Rightarrow> n < length name)
         then Some (length name, c) else best)"

text \<open>
  After \<open>&\<close>: the text is literal, or a reference that takes so many characters and
  stands for a character, or a reference that the model does not know.
\<close>

datatype reference = Literal | Ref nat char | Unknown

definition char_ref :: "string \<Rightarrow> reference" where
  "char_ref cs =
     (let run = takeWhile is_alnum cs; rest = dropWhile is_alnum cs
      in if run = [] then (if take 1 cs = ''#'' then Unknown else Literal)
         else if take 1 rest = '';'' then
           (case map_of legacy_refs run of
              Some c \<Rightarrow> Ref (Suc (length run)) c
            | None \<Rightarrow> Unknown)
         else
           (case longest_ref run legacy_refs of
              Some (n, c) \<Rightarrow> Ref n c
            | None \<Rightarrow> Literal))"

text \<open>
  Inside a comment, after its opening \<open><!--\<close>: the number of characters up to the
  \<open>>\<close> that closes it, if the text closes it.
\<close>

datatype comment_state = Start | Start_dash | Inside | End_dash | End_dashes | End_bang

fun comment_close :: "comment_state \<Rightarrow> string \<Rightarrow> nat option" where
  "comment_close st [] = None"
| "comment_close Start (c # cs) =
     (if c = CHR ''>'' then Some 1
      else map_option Suc (comment_close (if c = CHR ''-'' then Start_dash else Inside) cs))"
| "comment_close Start_dash (c # cs) =
     (if c = CHR ''>'' then Some 1
      else map_option Suc (comment_close (if c = CHR ''-'' then End_dashes else Inside) cs))"
| "comment_close Inside (c # cs) =
     map_option Suc (comment_close (if c = CHR ''-'' then End_dash else Inside) cs)"
| "comment_close End_dash (c # cs) =
     map_option Suc (comment_close (if c = CHR ''-'' then End_dashes else Inside) cs)"
| "comment_close End_dashes (c # cs) =
     (if c = CHR ''>'' then Some 1
      else map_option Suc
        (comment_close
          (if c = CHR ''!'' then End_bang else if c = CHR ''-'' then End_dashes else Inside) cs))"
| "comment_close End_bang (c # cs) =
     (if c = CHR ''>'' then Some 1
      else map_option Suc (comment_close (if c = CHR ''-'' then End_dash else Inside) cs))"

text \<open>
  After \<open><\<close>: the character is literal, or a comment opens (that takes so many
  characters, if the text closes it), or other markup follows.
\<close>

datatype lt_kind = Less_than | Comment "nat option" | Markup

definition tag_open :: "string \<Rightarrow> lt_kind" where
  "tag_open cs =
     (case cs of
        [] \<Rightarrow> Less_than
      | c # _ \<Rightarrow>
          if take 3 cs = ''!--'' then
            Comment (map_option (\<lambda>n. n + 3) (comment_close Start (drop 3 cs)))
          else if is_alpha c \<or> c = CHR ''/'' \<or> c = CHR ''!'' \<or> c = CHR ''?'' then Markup
          else Less_than)"

text \<open>
  What the parser shows of a text: \<open>Shown\<close> when the text ends as text, \<open>Cut\<close> when it
  ends inside a comment. The first argument of \<open>html_scan\<close> counts the characters still
  to be skipped.
\<close>

datatype scanned = Shown string | Cut string

fun emit :: "char \<Rightarrow> scanned option \<Rightarrow> scanned option" where
  "emit c None = None"
| "emit c (Some (Shown t)) = Some (Shown (c # t))"
| "emit c (Some (Cut t)) = Some (Cut (c # t))"

fun html_scan :: "nat \<Rightarrow> string \<Rightarrow> scanned option" where
  "html_scan k [] = Some (Shown [])"
| "html_scan (Suc k) (c # cs) = html_scan k cs"
| "html_scan 0 (c # cs) =
     (if c = CHR ''&'' then
        (case char_ref cs of
           Literal \<Rightarrow> emit c (html_scan 0 cs)
         | Ref n r \<Rightarrow> emit r (html_scan n cs)
         | Unknown \<Rightarrow> None)
      else if c = CHR ''<'' then
        (case tag_open cs of
           Less_than \<Rightarrow> emit c (html_scan 0 cs)
         | Comment None \<Rightarrow> Some (Cut [])
         | Comment (Some n) \<Rightarrow> html_scan n cs
         | Markup \<Rightarrow> None)
      else if c = CHR 0x00 then html_scan 0 cs
      else if c = CHR 0x0D then
        emit (CHR 0x0A) (html_scan (if take 1 cs = [CHR 0x0A] then 1 else 0) cs)
      else emit c (html_scan 0 cs))"

text \<open>The text content of an element whose content is the text, when its end tag closes it.\<close>

definition html_text :: "string \<Rightarrow> string option" where
  "html_text str = (case html_scan 0 str of Some (Shown t) \<Rightarrow> Some t | _ \<Rightarrow> None)"

subsection \<open>The persisted object\<close>

text \<open>
  \<open>data[k] = v\<close>, on the object that \<open>saveData\<close> starts as \<open>{}\<close>: an existing property
  keeps its place, a new one goes last. The name \<open>__proto__\<close> is the exception: assigning
  an array to it replaces the prototype of the object, which gets no property.
\<close>

fun set_property :: "string \<Rightarrow> task list \<Rightarrow> snapshot \<Rightarrow> snapshot" where
  "set_property k v [] = [(k, v)]"
| "set_property k v ((k', v') # data) =
     (if k' = k then (k, v) # data else (k', v') # set_property k v data)"

definition assign :: "string \<Rightarrow> task list \<Rightarrow> snapshot \<Rightarrow> snapshot" where
  "assign k v data = (if k = ''__proto__'' then data else set_property k v data)"

text \<open>
  \<open>Object.keys\<close>: the keys that are array indices (canonical decimal numerals below
  \<open>2^32 - 1\<close>) in ascending numeric order, then the other keys in insertion order.
\<close>

definition is_digit :: "char \<Rightarrow> bool" where
  "is_digit c \<longleftrightarrow> (48::nat) \<le> of_char c \<and> of_char c \<le> (57::nat)"

definition index_value :: "string \<Rightarrow> nat" where
  "index_value k = foldl (\<lambda>n c. 10 * n + (of_char c - 48)) 0 k"

definition is_array_index :: "string \<Rightarrow> bool" where
  "is_array_index k \<longleftrightarrow>
     k \<noteq> [] \<and> list_all is_digit k \<and> (k = ''0'' \<or> hd k \<noteq> CHR ''0'') \<and>
     index_value k < 2 ^ 32 - 1"

definition own_keys :: "snapshot \<Rightarrow> string list" where
  "own_keys data =
     (let ks = remdups (map fst data)
      in sort_key index_value (filter is_array_index ks) @
         filter (\<lambda>k. \<not> is_array_index k) ks)"

subsection \<open>Document helpers\<close>

fun find_index :: "('a \<Rightarrow> bool) \<Rightarrow> 'a list \<Rightarrow> nat option" where
  "find_index P [] = None"
| "find_index P (x # xs) = (if P x then Some 0 else map_option Suc (find_index P xs))"

text \<open>
  The document is modelled by its columns, so an id is looked up among them.
  \<open>getElementById\<close> finds nothing for the empty id.
\<close>

definition getElementById :: "string \<Rightarrow> state \<Rightarrow> nat option" where
  "getElementById cid s =
     (if cid = [] then None else find_index (\<lambda>c. col_id c = cid) (columns s))"

text \<open>\<open>card.parentElement\<close>: the column that holds the card.\<close>

definition parentElement :: "nat \<Rightarrow> state \<Rightarrow> nat option" where
  "parentElement a s = find_index (\<lambda>c. a \<in> set (children c)) (columns s)"

definition map_column :: "nat \<Rightarrow> (column \<Rightarrow> column) \<Rightarrow> state \<Rightarrow> state" where
  "map_column i f s =
     (if i < length (columns s) then s\<lparr>columns := (columns s)[i := f (columns s ! i)]\<rparr>
      else s)"

definition map_card :: "nat \<Rightarrow> (card \<Rightarrow> card) \<Rightarrow> state \<Rightarrow> state" where
  "map_card a f s = s\<lparr>cards := (cards s)(a := f (cards s a))\<rparr>"

text \<open>\<open>card.remove()\<close>: the card leaves the column that holds it.\<close>

definition remove_card :: "nat \<Rightarrow> state \<Rightarrow> state" where
  "remove_card a s =
     s\<lparr>columns := map (\<lambda>c. c\<lparr>children := removeAll a (children c)\<rparr>) (columns s)\<rparr>"

text \<open>\<open>column.appendChild(card)\<close>: the card leaves its place and becomes the last child.\<close>

definition appendChild :: "nat \<Rightarrow> nat \<Rightarrow> state \<Rightarrow> state" where
  "appendChild i a s = map_column i (\<lambda>c. c\<lparr>children := children c @ [a]\<rparr>) (remove_card a s)"

text \<open>\<open>column.querySelectorAll('.card').forEach(c => c.remove())\<close>\<close>

definition clear_cards :: "nat \<Rightarrow> state \<Rightarrow> state" where
  "clear_cards i s = map_column i (\<lambda>c. c\<lparr>children := []\<rparr>) s"

definition updateCount :: "nat \<Rightarrow> state \<Rightarrow> state" where
  "updateCount i s =
     map_column i
       (\<lambda>c. case count_span c of
               None \<Rightarrow> c
             | Some n \<Rightarrow> c\<lparr>count_span := Some (length (children c))\<rparr>) s"

subsection \<open>Button visibility\<close>

text \<open>
  \<open>updateBtn\<close> is the first button of class \<open>update\<close> in the region, if there is one;
  \<open>prepend\<close> puts a new one first, \<open>updateBtn.remove()\<close> takes that one button away.
\<close>

definition needsUpdate :: "string \<Rightarrow> bool" where
  "needsUpdate columnId \<longleftrightarrow> columnId \<in> set UPDATE_ALLOWED_COLUMNS"

definition updateCardButtons :: "card \<Rightarrow> string \<Rightarrow> card" where
  "updateCardButtons c columnId =
     (case card_actions c of
        None \<Rightarrow> c
      | Some acts \<Rightarrow>
          (let updateBtn = (Update \<in> set acts);
               acts1 = (if needsUpdate columnId \<and> \<not> updateBtn then Update # acts else acts);
               acts2 = (if \<not> needsUpdate columnId \<and> updateBtn
                        then remove1 Update acts1 else acts1)
           in c\<lparr>card_actions := Some acts2\<rparr>))"

subsection \<open>Cards\<close>

definition attachDragEvents :: "nat \<Rightarrow> state \<Rightarrow> state" where
  "attachDragEvents a s = map_card a (\<lambda>c. c\<lparr>drag_listeners := Suc (drag_listeners c)\<rparr>) s"

text \<open>
  The card that the template of \<open>createCardDOM\<close> describes, before it is a node: the
  title in the \<open>h3\<close>, the description in the \<open>p\<close>, and the action region with its two
  buttons. A comment that the description leaves open takes the rest of the template
  with it: the card then has no action region.
\<close>

definition card_template :: "string \<Rightarrow> string \<Rightarrow> error + card" where
  "card_template ttl dsc =
     (case (html_scan 0 ttl, html_scan 0 dsc) of
        (Some (Shown t), Some (Shown d)) \<Rightarrow>
          Inr \<lparr>h3_text = t, p_text = d, card_actions = Some [Update, Delete],
               dragging = False, drag_listeners = 0\<rparr>
      | (Some (Shown t), Some (Cut d)) \<Rightarrow>
          Inr \<lparr>h3_text = t, p_text = d, card_actions = None,
               dragging = False, drag_listeners = 0\<rparr>
      | _ \<Rightarrow> Inl Unmodelled_markup)"

definition createCardDOM :: "string \<Rightarrow> string \<Rightarrow> state \<Rightarrow> error + (nat \<times> state)" where
  "createCardDOM ttl dsc s =
     (case card_template ttl dsc of
        Inl e \<Rightarrow> Inl e
      | Inr c \<Rightarrow>
          (let newCard = next_node s
           in Inr (newCard,
                   attachDragEvents newCard
                     (s\<lparr>cards := (cards s)(newCard := c), next_node := Suc newCard\<rparr>))))"

subsection \<open>Persistence\<close>

definition column_tasks :: "(nat \<Rightarrow> card) \<Rightarrow> column \<Rightarrow> task list" where
  "column_tasks cs c =
     map (\<lambda>a. \<lparr>title = h3_text (cs a), desc = p_text (cs a)\<rparr>) (children c)"

definition saveData :: "state \<Rightarrow> state" where
  "saveData s =
     (let data = fold (\<lambda>c d. assign (col_id c) (column_tasks (cards s) c) d) (columns s) []
      in s\<lparr>localStorage := (localStorage s)(STORAGE_KEY \<mapsto> data),
           writes := Suc (writes s)\<rparr>)"

text \<open>The inner loop of \<open>loadData\<close>: the cards of one column, in the order stored.\<close>

fun rebuild :: "nat \<Rightarrow> string \<Rightarrow> task list \<Rightarrow> state \<Rightarrow> error + state" where
  "rebuild i columnId [] s = Inr s"
| "rebuild i columnId (cardData # rest) s =
     (case createCardDOM (title cardData) (desc cardData) s of
        Inl e \<Rightarrow> Inl e
      | Inr (a, s1) \<Rightarrow>
          rebuild i columnId rest
            (map_card a (\<lambda>c. updateCardButtons c columnId) (appendChild i a s1)))"

text \<open>The outer loop of \<open>loadData\<close>, over the keys of the stored object.\<close>

fun load_keys :: "string list \<Rightarrow> snapshot \<Rightarrow> state \<Rightarrow> error + state" where
  "load_keys [] data s = Inr s"
| "load_keys (columnId # ks) data s =
     (case getElementById columnId s of
        None \<Rightarrow> load_keys ks data s
      | Some i \<Rightarrow>
          (case map_of data columnId of
             None \<Rightarrow> Inl TypeError
           | Some tasks \<Rightarrow>
               (case rebuild i columnId tasks (clear_cards i s) of
                  Inl e \<Rightarrow> Inl e
                | Inr s1 \<Rightarrow> load_keys ks data (updateCount i s1))))"

definition loadData :: "state \<Rightarrow> error + state" where
  "loadData s =
     (case localStorage s STORAGE_KEY of
        None \<Rightarrow> Inr s
      | Some data \<Rightarrow>
          load_keys (own_keys data) data
            (fold clear_cards [0..<length (columns s)] s))"

subsection \<open>The dialog\<close>

definition openEditModal :: "nat \<Rightarrow> state \<Rightarrow> state" where
  "openEditModal a s =
     s\<lparr>editingCard := Some a,
       task_title := h3_text (cards s a),
       task_desc := p_text (cards s a),
       modalTitle := ''Edit Task'',
       modalSubmitBtn := ''Save Changes'',
       modal_hidden := False\<rparr>"

definition openAddModal :: "state \<Rightarrow> state" where
  "openAddModal s =
     s\<lparr>editingCard := None,
       task_title := title_default s,
       task_desc := desc_default s,
       modalTitle := ''Add New Task'',
       modalSubmitBtn := ''Add Task'',
       modal_hidden := False\<rparr>"

definition closeModal :: "state \<Rightarrow> state" where
  "closeModal s =
     s\<lparr>modal_hidden := True,
       task_title := title_default s,
       task_desc := desc_default s\<rparr>"

subsection \<open>Handlers\<close>

text \<open>One \<open>dragstart\<close> listener and one \<open>dragend\<close> listener of a card.\<close>

definition dragstart :: "nat \<Rightarrow> state \<Rightarrow> state" where
  "dragstart a s = map_card a (\<lambda>c. c\<lparr>dragging := True\<rparr>) (s\<lparr>draggedCard := Some a\<rparr>)"

definition dragend :: "nat \<Rightarrow> state \<Rightarrow> state" where
  "dragend a s = saveData (map_card a (\<lambda>c. c\<lparr>dragging := False\<rparr>) (s\<lparr>draggedCard := None\<rparr>))"

definition dragover :: "nat \<Rightarrow> state \<Rightarrow> state" where
  "dragover i s = map_column i (\<lambda>c. c\<lparr>drag_over := True\<rparr>) s"

definition dragleave :: "nat \<Rightarrow> state \<Rightarrow> state" where
  "dragleave i s = map_column i (\<lambda>c. c\<lparr>drag_over := False\<rparr>) s"

text \<open>The \<open>drop\<close> listener of the column at index \<open>i\<close>.\<close>

definition drop_on :: "nat \<Rightarrow> state \<Rightarrow> state" where
  "drop_on i s =
     (let s1 = map_column i (\<lambda>c. c\<lparr>drag_over := False\<rparr>) s
      in case draggedCard s1 of
           None \<Rightarrow> s1
         | Some a \<Rightarrow>
             saveData
               (updateCount i
                 (map_card a (\<lambda>c. updateCardButtons c (col_id (columns s1 ! i)))
                   (appendChild i a s1))))"

text \<open>
  The click listener of the document, for a click on the update button and on the delete
  button of the card \<open>a\<close>; \<open>confirmed\<close> is the answer to \<open>confirm\<close>.
\<close>

definition click_update :: "nat \<Rightarrow> state \<Rightarrow> state" where
  "click_update a s = openEditModal a s"

definition click_delete :: "nat \<Rightarrow> bool \<Rightarrow> state \<Rightarrow> state" where
  "click_delete a confirmed s =
     (if confirmed then
        (case parentElement a s of
           None \<Rightarrow> s
         | Some i \<Rightarrow> saveData (updateCount i (remove_card a s)))
      else s)"

text \<open>The submit listener of the form.\<close>

definition submit :: "state \<Rightarrow> error + state" where
  "submit s =
     (let ttl = trim (task_title s); dsc = trim (task_desc s)
      in if ttl = [] then Inr s
         else
           (case (case editingCard s of
                    Some a \<Rightarrow> Inr (map_card a (\<lambda>c. c\<lparr>h3_text := ttl, p_text := dsc\<rparr>) s)
                  | None \<Rightarrow>
                      (case createCardDOM ttl dsc s of
                         Inl e \<Rightarrow> Inl e
                       | Inr (newCard, s1) \<Rightarrow>
                           (case find_index (\<lambda>c. col_id c = ''todo'') (columns s1) of
                              None \<Rightarrow> Inl TypeError
                            | Some i \<Rightarrow> Inr (appendChild i newCard s1))))
            of
              Inl e \<Rightarrow> Inl e
            | Inr s2 \<Rightarrow>
                Inr (closeModal (saveData (fold updateCount [0..<length (columns s2)] s2)))))"

subsection \<open>Events\<close>

text \<open>
  What can happen to the page. A column is named by its index in \<open>columns\<close>, a card by
  its address. An event on something that is not there (a column index out of range, a
  button the card does not show, a card that is in no column) changes nothing. The page
  gets \<open>DOMContentLoaded\<close> once, when it starts; the model lets it happen at any time.
\<close>

datatype event =
    DOMContentLoaded
  | Dragstart nat
  | Dragend nat
  | Dragover nat
  | Dragleave nat
  | Drop nat
  | Click_update nat
  | Click_delete nat bool
  | Click_add
  | Click_cancel
  | Click_overlay
  | Input_title string
  | Input_desc string
  | Submit

definition shows_update :: "card \<Rightarrow> bool" where
  "shows_update c = (case card_actions c of None \<Rightarrow> False | Some acts \<Rightarrow> Update \<in> set acts)"

definition shows_delete :: "card \<Rightarrow> bool" where
  "shows_delete c = (case card_actions c of None \<Rightarrow> False | Some acts \<Rightarrow> Delete \<in> set acts)"

definition all_cards :: "state \<Rightarrow> nat list" where
  "all_cards s = concat (map children (columns s))"

fun handle :: "event \<Rightarrow> state \<Rightarrow> error + state" where
  "handle DOMContentLoaded s =
     (case loadData s of
        Inl e \<Rightarrow> Inl e
      | Inr s1 \<Rightarrow> Inr (fold attachDragEvents (all_cards s1) s1))"
| "handle (Dragstart a) s =
     Inr (if a \<in> set (all_cards s) then (dragstart a ^^ drag_listeners (cards s a)) s else s)"
| "handle (Dragend a) s = Inr ((dragend a ^^ drag_listeners (cards s a)) s)"
| "handle (Dragover i) s = Inr (dragover i s)"
| "handle (Dragleave i) s = Inr (dragleave i s)"
| "handle (Drop i) s = Inr (if i < length (columns s) then drop_on i s else s)"
| "handle (Click_update a) s =
     Inr (if a \<in> set (all_cards s) \<and> shows_update (cards s a) then click_update a s else s)"
| "handle (Click_delete a confirmed) s =
     Inr (if a \<in> set (all_cards s) \<and> shows_delete (cards s a)
          then click_delete a confirmed s else s)"
| "handle Click_add s = Inr (openAddModal s)"
| "handle Click_cancel s = Inr (closeModal s)"
| "handle Click_overlay s = Inr (closeModal s)"
| "handle (Input_title v) s = Inr (s\<lparr>task_title := v\<rparr>)"
| "handle (Input_desc v) s = Inr (s\<lparr>task_desc := v\<rparr>)"
| "handle Submit s = submit s"

fun run :: "event list \<Rightarrow> state \<Rightarrow> error + state" where
  "run [] s = Inr s"
| "run (e # es) s = (case handle e s of Inl err \<Rightarrow> Inl err | Inr s1 \<Rightarrow> run es s1)"

subsection \<open>Properties of boards\<close>

text \<open>The tasks of the board, column by column, as \<open>saveData\<close> reads them.\<close>

definition board_tasks :: "state \<Rightarrow> (string \<times> task list) list" where
  "board_tasks s = map (\<lambda>c. (col_id c, column_tasks (cards s) c)) (columns s)"

text \<open>No card in a column outside the allow-list shows the update button.\<close>

definition policy_ok :: "state \<Rightarrow> bool" where
  "policy_ok s \<longleftrightarrow>
     (\<forall>c \<in> set (columns s). \<forall>a \<in> set (children c).
        shows_update (cards s a) \<longrightarrow> needsUpdate (col_id c))"

text \<open>
  The cards in the columns, and the card being dragged, are nodes that exist: their
  addresses have been given out.
\<close>

definition allocated :: "state \<Rightarrow> bool" where
  "allocated s \<longleftrightarrow> (\<forall>c \<in> set (columns s). \<forall>a \<in> set (children c). a < next_node s)"

definition nodes_ok :: "state \<Rightarrow> bool" where
  "nodes_ok s \<longleftrightarrow>
     allocated s \<and> (case draggedCard s of None \<Rightarrow> True | Some a \<Rightarrow> a < next_node s)"

text \<open>A text that comes back unchanged when the browser parses it as HTML.\<close>

definition literal :: "string \<Rightarrow> bool" where
  "literal str \<longleftrightarrow> html_text str = Some str"

definition literal_task :: "task \<Rightarrow> bool" where
  "literal_task t \<longleftrightarrow> literal (title t) \<and> literal (desc t)"

text \<open>
  The action region of a card holds at most one update button; and so it is for the cards
  in the columns and for the card being dragged.
\<close>

definition single_update :: "card \<Rightarrow> bool" where
  "single_update c \<longleftrightarrow>
     (case card_actions c of None \<Rightarrow> True | Some acts \<Rightarrow> count_list acts Update \<le> 1)"

definition buttons_ok :: "state \<Rightarrow> bool" where
  "buttons_ok s \<longleftrightarrow>
     (\<forall>c \<in> set (columns s). \<forall>a \<in> set (children c). single_update (cards s a)) \<and>
     (case draggedCard s of None \<Rightarrow> True | Some a \<Rightarrow> single_update (cards s a))"

definition board_inv :: "state \<Rightarrow> bool" where
  "board_inv s \<longleftrightarrow> nodes_ok s \<and> policy_ok s \<and> buttons_ok s"

text \<open>
  A small board for the concrete cases: a column \<open>todo\<close> with one card, titled A, and an
  empty column \<open>done\<close>, both headers showing the right count, nothing stored yet.
\<close>

definition example_card :: card where
  "example_card =
     \<lparr>h3_text = ''A'', p_text = ''x'',
      card_actions = Some [Update, Delete],
      dragging = False, drag_listeners = 1\<rparr>"

definition example_board :: state where
  "example_board =
     \<lparr>columns =
        [\<lparr>col_id = ''todo'', count_span = Some 1, children = [0], drag_over = False\<rparr>,
         \<lparr>col_id = ''done'', count_span = Some 0, children = [], drag_over = False\<rparr>],
      cards = (\<lambda>a. example_card), next_node = 1,
      draggedCard = None, editingCard = None,
      modal_hidden = True, modalTitle = ''Add New Task'', modalSubmitBtn = ''Add Task'',
      task_title = '''', task_desc = '''', title_default = '''', desc_default = '''',
      localStorage = Map.empty, writes = 0\<rparr>"

text \<open>A card whose action region holds two update buttons and a delete button.\<close>

definition double_update_card :: card where
  "double_update_card =
     \<lparr>h3_text = ''A'', p_text = ''x'',
      card_actions = Some [Update, Update, Delete],
      dragging = False, drag_listeners = 1\<rparr>"

text \<open>The example board with a stored snapshot that names the column \<open>done\<close> only.\<close>

definition partial_snapshot_board :: state where
  "partial_snapshot_board =
     example_board\<lparr>localStorage := [STORAGE_KEY \<mapsto> [(''done'', [])]]\<rparr>"

section \<open>Evaluation\<close>

text \<open>The definitions that the simplifier unfolds to run the model on a concrete board.\<close>

lemmas model_defs =
  example_board_def example_card_def all_cards_def shows_update_def shows_delete_def
  click_update_def click_delete_def openEditModal_def openAddModal_def closeModal_def
  dragstart_def dragend_def dragover_def dragleave_def drop_on_def
  map_card_def map_column_def remove_card_def appendChild_def clear_cards_def updateCount_def
  updateCardButtons_def needsUpdate_def UPDATE_ALLOWED_COLUMNS_def
  saveData_def assign_def column_tasks_def loadData_def getElementById_def parentElement_def
  createCardDOM_def card_template_def html_text_def char_ref_def tag_open_def legacy_refs_def
  is_alpha_def is_alnum_def attachDragEvents_def
  submit_def trim_def js_whitespace_def board_tasks_def STORAGE_KEY_def
  own_keys_def is_array_index_def is_digit_def index_value_def Let_def

section \<open>Dialog and confirmation\<close>

text \<open>
  C6. A click on a delete button whose confirmation the user declines changes nothing:
  the state after the click is the state before it, so the card is still in its column,
  the header shows the same count, and no write to the storage has happened.
\<close>

theorem declined_delete_changes_nothing:
  "handle (Click_delete a False) s = Inr s"
  by (simp add: click_delete_def)

text \<open>
  C7. A submission of the form whose title is empty after trimming changes nothing: no
  card is created or changed, nothing is written to the storage, and the dialog stays as
  it was (open, with its fields).
\<close>

theorem empty_title_submit_changes_nothing:
  "trim (task_title s) = [] \<Longrightarrow> handle Submit s = Inr s"
  by (simp add: submit_def)

theorem empty_title_submit_witness:
  "trim (task_title (example_board\<lparr>task_title := ''  '', modal_hidden := False\<rparr>)) = [] \<and>
   handle Submit (example_board\<lparr>task_title := ''  '', modal_hidden := False\<rparr>) =
     Inr (example_board\<lparr>task_title := ''  '', modal_hidden := False\<rparr>)"
  using empty_title_submit_changes_nothing
    [of "example_board\<lparr>task_title := ''  '', modal_hidden := False\<rparr>"]
  by (simp add: trim_def js_whitespace_def)

text \<open>
  C4, as the code has it. Dismissing the dialog (the cancel button, or a click on the
  backdrop) hides it and resets the two fields, without asking; the edit target
  \<open>editingCard\<close> is left as it was. Nothing else changes.
\<close>

theorem dismissal_resets_fields:
  "handle Click_cancel s =
     Inr (s\<lparr>modal_hidden := True, task_title := title_default s,
            task_desc := desc_default s\<rparr>) \<and>
   handle Click_overlay s =
     Inr (s\<lparr>modal_hidden := True, task_title := title_default s,
            task_desc := desc_default s\<rparr>) \<and>
   editingCard (closeModal s) = editingCard s"
  by (simp add: closeModal_def)

text \<open>
  The claim says the edit target is cleared. On the example board, after a click on the
  update button of the card 0 and a dismissal, the edit target is still that card.
\<close>

theorem dismissal_keeps_edit_target_counterexample:
  "map_sum id editingCard (run [Click_update 0, Click_cancel] example_board) = Inr (Some 0) \<and>
   map_sum id editingCard (run [Click_update 0, Click_overlay] example_board) = Inr (Some 0)"
  by (simp add: example_board_def example_card_def all_cards_def shows_update_def
      click_update_def openEditModal_def closeModal_def)

section \<open>Buttons\<close>

lemma count_list_remove1: "count_list (remove1 x xs) x = count_list xs x - 1"
  by (induction xs) auto

lemma single_remove1: "count_list xs x \<le> 1 \<Longrightarrow> x \<notin> set (remove1 x xs)"
  using count_list_remove1 [of x xs] by (simp add: count_list_0_iff [symmetric])

text \<open>
  C8, as the code has it. Applying \<open>updateCardButtons\<close> twice gives the card that
  applying it once gives, for every card and every column of the allow-list, and for every
  other column when the action region of the card holds at most one update button (as the
  region that the template of \<open>createCardDOM\<close> builds does); and every card whose update
  button already agrees with the policy of the column is left as it is.
\<close>

theorem updateCardButtons_idempotent:
  "(needsUpdate columnId \<or> single_update c \<longrightarrow>
      updateCardButtons (updateCardButtons c columnId) columnId =
        updateCardButtons c columnId) \<and>
   ((shows_update c \<longleftrightarrow> needsUpdate columnId) \<longrightarrow> updateCardButtons c columnId = c)"
  by (cases c)
    (auto simp: updateCardButtons_def shows_update_def single_update_def Let_def
      single_remove1 split: option.splits)

theorem updateCardButtons_idempotent_witness:
  "single_update example_card \<and>
   (shows_update example_card \<longleftrightarrow> needsUpdate ''todo'') \<and>
   updateCardButtons example_card ''todo'' = example_card \<and>
   updateCardButtons (updateCardButtons example_card ''done'') ''done'' =
     updateCardButtons example_card ''done'' \<and>
   needsUpdate ''todo'' \<and>
   updateCardButtons (updateCardButtons double_update_card ''todo'') ''todo'' =
     updateCardButtons double_update_card ''todo''"
  using updateCardButtons_idempotent [of "''todo''" example_card]
    updateCardButtons_idempotent [of "''done''" example_card]
    updateCardButtons_idempotent [of "''todo''" double_update_card]
  by (simp add: example_card_def shows_update_def single_update_def needsUpdate_def
      UPDATE_ALLOWED_COLUMNS_def)

text \<open>
  The claim says it of every card. The source removes the first update button it finds
  and no other: on the card with two update buttons, in the column \<open>done\<close>, the first
  call leaves one of them and the second call removes it.
\<close>

theorem updateCardButtons_twice_counterexample:
  "card_actions (updateCardButtons double_update_card ''done'') = Some [Update, Delete] \<and>
   card_actions (updateCardButtons (updateCardButtons double_update_card ''done'') ''done'') =
     Some [Delete] \<and>
   updateCardButtons (updateCardButtons double_update_card ''done'') ''done'' \<noteq>
     updateCardButtons double_update_card ''done''"
  by (simp add: double_update_card_def updateCardButtons_def needsUpdate_def
      UPDATE_ALLOWED_COLUMNS_def Let_def)

text \<open>
  C5, as the code has it. For every title and description that the parser shows as they
  are written (\<open>literal\<close>: text without a tag, a comment, a character reference, NUL or CR),
  \<open>createCardDOM\<close> returns a new card with a title region that shows the title, a
  description region that shows the description, and an action region that holds the
  update button and the delete button, both always: the function does not know the
  column. The policy of the column is applied afterwards, by \<open>updateCardButtons\<close>.
\<close>

theorem createCardDOM_regions:
  assumes "literal ttl" and "literal dsc"
  shows "\<exists>s1. createCardDOM ttl dsc s = Inr (next_node s, s1) \<and>
           cards s1 (next_node s) =
             \<lparr>h3_text = ttl, p_text = dsc, card_actions = Some [Update, Delete],
              dragging = False, drag_listeners = 1\<rparr>"
proof -
  from assms have "html_scan 0 ttl = Some (Shown ttl)" and "html_scan 0 dsc = Some (Shown dsc)"
    by (auto simp: literal_def html_text_def split: option.splits scanned.splits)
  then show ?thesis
    by (simp add: createCardDOM_def card_template_def attachDragEvents_def map_card_def Let_def)
qed

theorem createCardDOM_regions_witness:
  "literal ''Q&A'' \<and> literal ''a < b'' \<and>
   (\<exists>s1. createCardDOM ''Q&A'' ''a < b'' example_board = Inr (next_node example_board, s1) \<and>
      cards s1 (next_node example_board) =
        \<lparr>h3_text = ''Q&A'', p_text = ''a < b'', card_actions = Some [Update, Delete],
         dragging = False, drag_listeners = 1\<rparr>)"
proof -
  have t: "literal ''Q&A''"
    by (simp add: literal_def model_defs)
  have d: "literal ''a < b''"
    by (simp add: literal_def model_defs)
  from createCardDOM_regions [OF t d, of example_board] t d show ?thesis
    by simp
qed

text \<open>
  The claim says the update button is there only when the policy of the column grants
  it, and the delete button always. The card built for the title A shows the update
  button, and the column \<open>done\<close>, for which \<open>loadData\<close> builds cards the same way, is not
  in the allow-list. And the card built for a description that opens a comment has no
  action region, so no delete button: the template is parsed with the description in it.
\<close>

theorem createCardDOM_always_update_counterexample:
  "(case createCardDOM ''A'' ''x'' example_board of
      Inl e \<Rightarrow> False
    | Inr (a, s) \<Rightarrow> shows_update (cards s a)) \<and>
   \<not> needsUpdate ''done'' \<and>
   (case createCardDOM ''A'' ''<!--'' example_board of
      Inl e \<Rightarrow> False
    | Inr (a, s) \<Rightarrow> \<not> shows_delete (cards s a))"
  by (simp add: model_defs)

section \<open>Persistence\<close>

subsection \<open>The object that saveData builds\<close>

lemma set_property_keys: "fst ` set (set_property k v d) = insert k (fst ` set d)"
  by (induction d) (auto split: if_splits simp: rev_image_eqI)

lemma set_property_distinct:
  "distinct (map fst d) \<Longrightarrow> distinct (map fst (set_property k v d))"
  by (induction d) (auto simp: set_property_keys)

lemma set_property_fresh: "k \<notin> fst ` set d \<Longrightarrow> set_property k v d = d @ [(k, v)]"
  by (induction d) auto

lemma fold_assign_keys:
  "fst ` set (fold (\<lambda>c d. assign (col_id c) (f c) d) cols d0) =
     (col_id ` set cols - {''__proto__''}) \<union> fst ` set d0"
  by (induction cols arbitrary: d0) (auto simp: assign_def set_property_keys)

lemma fold_assign_distinct:
  "distinct (map fst d0) \<Longrightarrow> distinct (map fst (fold (\<lambda>c d. assign (col_id c) (f c) d) cols d0))"
  by (induction cols arbitrary: d0) (auto simp: assign_def set_property_distinct)

lemma fold_assign_fresh:
  "distinct (map col_id cols) \<Longrightarrow> ''__proto__'' \<notin> col_id ` set cols \<Longrightarrow>
   col_id ` set cols \<inter> fst ` set d0 = {} \<Longrightarrow>
   fold (\<lambda>c d. assign (col_id c) (f c) d) cols d0 = d0 @ map (\<lambda>c. (col_id c, f c)) cols"
proof (induction cols arbitrary: d0)
  case Nil
  then show ?case by simp
next
  case (Cons c cols)
  have fresh: "col_id c \<notin> fst ` set d0" and own: "col_id c \<noteq> ''__proto__''"
    using Cons.prems(2,3) by auto
  have disj: "col_id ` set cols \<inter> fst ` set (d0 @ [(col_id c, f c)]) = {}"
    using Cons.prems by auto
  from Cons.prems(1) have d: "distinct (map col_id cols)" by simp
  from Cons.prems(2) have p: "''__proto__'' \<notin> col_id ` set cols" by simp
  from Cons.IH [OF d p disj] fresh own show ?case
    by (simp add: assign_def set_property_fresh)
qed

lemma set_own_keys: "set (own_keys d) = fst ` set d"
  by (auto simp: own_keys_def Let_def)

lemma map_of_board_tasks:
  "distinct (map col_id cols) \<Longrightarrow> c \<in> set cols \<Longrightarrow>
   map_of (map (\<lambda>c. (col_id c, f c)) cols) (col_id c) = Some (f c)"
  by (induction cols) (auto simp: image_iff)

text \<open>
  C10. Every snapshot that \<open>saveData\<close> writes covers the layout: the id of every column is
  a key of it (also a key that \<open>Object.keys\<close> lists when the snapshot is loaded), with a
  list of tasks as its value; and when the ids of the columns are distinct, as ids are, the
  snapshot has exactly one entry for each column, in order, holding the tasks of that
  column, the empty list for a column without cards. So no column is absent from a
  snapshot the program wrote. (A column whose id is the name \<open>__proto__\<close> is set aside:
  see \<open>assign\<close>.)
\<close>

theorem saveData_snapshot_total:
  "\<exists>data. localStorage (saveData s) STORAGE_KEY = Some data \<and>
      distinct (map fst data) \<and>
      (\<forall>c \<in> set (columns s). col_id c \<noteq> ''__proto__'' \<longrightarrow>
         col_id c \<in> fst ` set data \<and> col_id c \<in> set (own_keys data) \<and>
         (\<exists>ts. map_of data (col_id c) = Some ts)) \<and>
      (distinct (map col_id (columns s)) \<and> ''__proto__'' \<notin> col_id ` set (columns s) \<longrightarrow>
         data = board_tasks s \<and>
         (\<forall>c \<in> set (columns s). map_of data (col_id c) = Some (column_tasks (cards s) c)))"
proof -
  define data where
    "data = fold (\<lambda>c d. assign (col_id c) (column_tasks (cards s) c) d) (columns s) []"
  have stored: "localStorage (saveData s) STORAGE_KEY = Some data"
    by (simp add: saveData_def data_def Let_def)
  have keys: "fst ` set data = col_id ` set (columns s) - {''__proto__''}"
    unfolding data_def by (simp add: fold_assign_keys)
  have dist: "distinct (map fst data)"
    unfolding data_def by (rule fold_assign_distinct) simp
  have covered: "col_id c \<in> fst ` set data \<and> col_id c \<in> set (own_keys data) \<and>
      (\<exists>ts. map_of data (col_id c) = Some ts)"
    if "c \<in> set (columns s)" and "col_id c \<noteq> ''__proto__''" for c
  proof -
    from that keys have k: "col_id c \<in> fst ` set data" by blast
    then have "map_of data (col_id c) \<noteq> None"
      by (simp add: map_of_eq_None_iff)
    with k show ?thesis
      by (auto simp: set_own_keys)
  qed
  have exact: "data = board_tasks s \<and>
      (\<forall>c \<in> set (columns s). map_of data (col_id c) = Some (column_tasks (cards s) c))"
    if d: "distinct (map col_id (columns s))" and p: "''__proto__'' \<notin> col_id ` set (columns s)"
  proof -
    have eq: "data = board_tasks s"
      unfolding data_def board_tasks_def using fold_assign_fresh [OF d p, of "[]"] by simp
    show ?thesis
      using eq d by (auto simp: board_tasks_def map_of_board_tasks)
  qed
  from stored dist covered exact show ?thesis
    by blast
qed

theorem saveData_snapshot_total_witness:
  "distinct (map col_id (columns example_board)) \<and>
   ''__proto__'' \<notin> col_id ` set (columns example_board) \<and>
   (\<exists>data. localStorage (saveData example_board) STORAGE_KEY = Some data \<and>
      data = [(''todo'', [\<lparr>title = ''A'', desc = ''x''\<rparr>]), (''done'', [])] \<and>
      map_of data ''done'' = Some [])"
  using saveData_snapshot_total [of example_board]
  by (simp add: model_defs)

subsection \<open>Columns that the stored snapshot does not name\<close>

lemma find_index_Some:
  "find_index P xs = Some i \<Longrightarrow> i < length xs \<and> P (xs ! i)"
  by (induction xs arbitrary: i) (auto split: if_splits)

lemma getElementById_Some:
  "getElementById k s = Some i \<Longrightarrow> i < length (columns s) \<and> col_id (columns s ! i) = k"
  by (auto simp: getElementById_def split: if_splits dest: find_index_Some)

text \<open>What a step does to a column it is not about.\<close>

lemma columns_map_column_other:
  "i \<noteq> j \<Longrightarrow> columns (map_column i f s) ! j = columns s ! j"
  by (simp add: map_column_def)

lemma length_columns_map_column [simp]:
  "length (columns (map_column i f s)) = length (columns s)"
  by (simp add: map_column_def)

lemma columns_map_card [simp]: "columns (map_card a f s) = columns s"
  by (simp add: map_card_def)

lemma length_columns_remove_card [simp]:
  "length (columns (remove_card a s)) = length (columns s)"
  by (simp add: remove_card_def)

lemma columns_remove_card_empty:
  "j < length (columns s) \<Longrightarrow> children (columns s ! j) = [] \<Longrightarrow>
   columns (remove_card a s) ! j = columns s ! j"
  by (simp add: remove_card_def)

lemma createCardDOM_columns:
  "createCardDOM ttl dsc s = Inr (a, s1) \<Longrightarrow> columns s1 = columns s"
  by (auto simp: createCardDOM_def attachDragEvents_def Let_def split: sum.splits)

lemma rebuild_other:
  "rebuild i k tasks s = Inr s1 \<Longrightarrow> i \<noteq> j \<Longrightarrow> j < length (columns s) \<Longrightarrow>
   children (columns s ! j) = [] \<Longrightarrow>
   length (columns s1) = length (columns s) \<and> columns s1 ! j = columns s ! j"
proof (induction tasks arbitrary: s)
  case Nil
  then show ?case by simp
next
  case (Cons t tasks)
  from Cons.prems(1) obtain a s2 where
    c: "createCardDOM (title t) (desc t) s = Inr (a, s2)" and
    r: "rebuild i k tasks (map_card a (\<lambda>c. updateCardButtons c k) (appendChild i a s2)) = Inr s1"
    by (auto split: sum.splits)
  let ?s3 = "map_card a (\<lambda>c. updateCardButtons c k) (appendChild i a s2)"
  have cols: "columns s2 = columns s"
    using c by (rule createCardDOM_columns)
  have len: "length (columns ?s3) = length (columns s)"
    by (simp add: appendChild_def cols)
  have same: "columns ?s3 ! j = columns s ! j"
    using Cons.prems(2-4)
    by (simp add: appendChild_def columns_map_column_other columns_remove_card_empty cols)
  from Cons.IH [OF r Cons.prems(2)] len same Cons.prems(3,4) show ?case
    by simp
qed

lemma load_keys_other:
  "load_keys ks data s = Inr s1 \<Longrightarrow> j < length (columns s) \<Longrightarrow>
   col_id (columns s ! j) \<notin> set ks \<Longrightarrow> children (columns s ! j) = [] \<Longrightarrow>
   columns s1 ! j = columns s ! j"
proof (induction ks arbitrary: s)
  case Nil
  then show ?case by simp
next
  case (Cons k ks)
  show ?case
  proof (cases "getElementById k s")
    case None
    with Cons show ?thesis by simp
  next
    case (Some i)
    then have i: "i < length (columns s)" "col_id (columns s ! i) = k"
      by (auto dest: getElementById_Some)
    with Cons.prems(3) have ij: "i \<noteq> j" by auto
    from Cons.prems(1) Some obtain tasks s2 where
      r: "rebuild i k tasks (clear_cards i s) = Inr s2" and
      l: "load_keys ks data (updateCount i s2) = Inr s1"
      by (auto split: option.splits sum.splits)
    have c: "columns (clear_cards i s) ! j = columns s ! j"
      "length (columns (clear_cards i s)) = length (columns s)"
      using ij by (simp_all add: clear_cards_def columns_map_column_other)
    from rebuild_other [OF r ij] c Cons.prems(2,4)
    have s2: "length (columns s2) = length (columns s)" "columns s2 ! j = columns s ! j"
      by simp_all
    then have u: "length (columns (updateCount i s2)) = length (columns s)"
      "columns (updateCount i s2) ! j = columns s ! j"
      using ij by (simp_all add: updateCount_def columns_map_column_other)
    from Cons.IH [OF l] u Cons.prems(2-4) show ?thesis
      by simp
  qed
qed

lemma fold_clear_cards_take:
  "n \<le> length (columns s) \<Longrightarrow>
   columns (fold clear_cards [0..<n] s) =
     map (\<lambda>c. c\<lparr>children := []\<rparr>) (take n (columns s)) @ drop n (columns s)"
proof (induction n)
  case 0
  then show ?case by simp
next
  case (Suc n)
  then have n: "n < length (columns s)" by simp
  let ?s = "fold clear_cards [0..<n] s"
  have IH: "columns ?s =
      map (\<lambda>c. c\<lparr>children := []\<rparr>) (take n (columns s)) @ drop n (columns s)"
    using Suc by simp
  then have len: "length (columns ?s) = length (columns s)"
    by simp
  have nth: "columns ?s ! n = columns s ! n"
    using n by (simp add: IH nth_append)
  have "columns (clear_cards n ?s) = (columns ?s)[n := (columns s ! n)\<lparr>children := []\<rparr>]"
    using n len nth by (simp add: clear_cards_def map_column_def)
  also have "\<dots> = map (\<lambda>c. c\<lparr>children := []\<rparr>) (take (Suc n) (columns s)) @
      drop (Suc n) (columns s)"
    using n by (simp add: IH list_update_append take_Suc_conv_app_nth
        Cons_nth_drop_Suc [symmetric] del: drop_Suc)
  finally show ?case
    by simp
qed

lemma fold_clear_cards_all:
  "columns (fold clear_cards [0..<length (columns s)] s) =
     map (\<lambda>c. c\<lparr>children := []\<rparr>) (columns s)"
  by (simp add: fold_clear_cards_take)

lemma loadData_absent_column:
  assumes "localStorage s STORAGE_KEY = Some data" and "loadData s = Inr s1"
    and "j < length (columns s)" and "col_id (columns s ! j) \<notin> fst ` set data"
  shows "columns s1 ! j = (columns s ! j)\<lparr>children := []\<rparr>"
proof -
  let ?s0 = "fold clear_cards [0..<length (columns s)] s"
  from assms(1,2) have l: "load_keys (own_keys data) data ?s0 = Inr s1"
    by (simp add: loadData_def)
  have c: "columns ?s0 = map (\<lambda>c. c\<lparr>children := []\<rparr>) (columns s)"
    by (rule fold_clear_cards_all)
  from load_keys_other [OF l, of j] assms(3,4) show ?thesis
    by (simp add: c set_own_keys)
qed

text \<open>
  C2, as the code has it. When \<open>loadData\<close> finds a stored snapshot, its first loop removes
  the cards of every column; a column whose id is not a key of the snapshot is not rebuilt,
  so it ends without cards.
\<close>

theorem loadData_clears_absent_columns:
  assumes "localStorage s STORAGE_KEY = Some data" and "loadData s = Inr s1"
    and "j < length (columns s)" and "col_id (columns s ! j) \<notin> fst ` set data"
  shows "children (columns s1 ! j) = []"
  using loadData_absent_column [OF assms] by simp

theorem loadData_clears_absent_columns_witness:
  "localStorage partial_snapshot_board STORAGE_KEY = Some [(''done'', [])] \<and>
   loadData partial_snapshot_board =
     Inr (partial_snapshot_board
       \<lparr>columns :=
          [\<lparr>col_id = ''todo'', count_span = Some 1, children = [], drag_over = False\<rparr>,
           \<lparr>col_id = ''done'', count_span = Some 0, children = [], drag_over = False\<rparr>]\<rparr>) \<and>
   0 < length (columns partial_snapshot_board) \<and>
   col_id (columns partial_snapshot_board ! 0) \<notin> fst ` set [(''done'', [] :: task list)] \<and>
   children (columns (partial_snapshot_board
       \<lparr>columns :=
          [\<lparr>col_id = ''todo'', count_span = Some 1, children = [], drag_over = False\<rparr>,
           \<lparr>col_id = ''done'', count_span = Some 0, children = [], drag_over = False\<rparr>]\<rparr>) ! 0) = []"
proof -
  let ?s1 = "partial_snapshot_board
       \<lparr>columns :=
          [\<lparr>col_id = ''todo'', count_span = Some 1, children = [], drag_over = False\<rparr>,
           \<lparr>col_id = ''done'', count_span = Some 0, children = [], drag_over = False\<rparr>]\<rparr>"
  have stored: "localStorage partial_snapshot_board STORAGE_KEY = Some [(''done'', [])]"
    by (simp add: partial_snapshot_board_def model_defs)
  have loaded: "loadData partial_snapshot_board = Inr ?s1"
    by (simp add: partial_snapshot_board_def model_defs)
  have index: "0 < length (columns partial_snapshot_board)"
    by (simp add: partial_snapshot_board_def model_defs)
  have absent:
    "col_id (columns partial_snapshot_board ! 0) \<notin> fst ` set [(''done'', [] :: task list)]"
    by (simp add: partial_snapshot_board_def model_defs)
  from loadData_clears_absent_columns [OF stored loaded index absent]
    stored loaded index absent
  show ?thesis
    by blast
qed

text \<open>
  The claim says such a column keeps its cards. On the example board the column
  \<open>todo\<close> holds the card 0, the stored snapshot names \<open>done\<close> only, and after
  \<open>loadData\<close> the column \<open>todo\<close> is empty.
\<close>

theorem absent_column_is_cleared_counterexample:
  "map children (columns partial_snapshot_board) = [[0], []] \<and>
   map_of [(''done'', [])] ''todo'' = (None :: task list option) \<and>
   localStorage partial_snapshot_board STORAGE_KEY = Some [(''done'', [])] \<and>
   map_sum id (\<lambda>s. map children (columns s)) (loadData partial_snapshot_board) = Inr [[], []]"
  by (simp add: partial_snapshot_board_def model_defs)

section \<open>Moving a card\<close>

text \<open>
  What a drop does, for any board: the card becomes the last child of the column of the
  drop, whose count is refreshed; every other column loses the card if it held it, and
  keeps the count it showed.
\<close>

lemma drop_on_columns:
  assumes "draggedCard s = Some a" and "i < length (columns s)" and "j < length (columns s)"
  shows "columns (drop_on i s) ! j =
     (if j = i
      then (columns s ! i)
             \<lparr>children := removeAll a (children (columns s ! i)) @ [a],
              drag_over := False,
              count_span := map_option
                (\<lambda>n. Suc (length (removeAll a (children (columns s ! i))))) (count_span (columns s ! i))\<rparr>
      else (columns s ! j)\<lparr>children := removeAll a (children (columns s ! j))\<rparr>)"
  using assms
  by (cases "count_span (columns s ! i)")
    (simp_all add: drop_on_def saveData_def updateCount_def appendChild_def remove_card_def
      map_column_def map_card_def Let_def nth_list_update)

text \<open>
  C3, at a concrete move. On the example board (the column \<open>todo\<close> holds the card 0 and
  shows the count 1, the column \<open>done\<close> is empty and shows 0) the card is dragged and
  dropped on \<open>done\<close>. Afterwards the card is the last child of \<open>done\<close>, \<open>done\<close> shows 1,
  the card has lost its update button, and the board is stored; but \<open>todo\<close>, now empty,
  still shows 1: the listener calls \<open>updateCount\<close> for the column of the drop only.
\<close>

theorem drop_leaves_source_count:
  "map_sum id (\<lambda>s. (columns s, shows_update (cards s 0), localStorage s STORAGE_KEY))
     (run [Dragstart 0, Drop 1] example_board) =
   Inr ([\<lparr>col_id = ''todo'', count_span = Some 1, children = [], drag_over = False\<rparr>,
         \<lparr>col_id = ''done'', count_span = Some 1, children = [0], drag_over = False\<rparr>],
        False,
        Some [(''todo'', []), (''done'', [\<lparr>title = ''A'', desc = ''x''\<rparr>])])"
  by (simp add: model_defs)

section \<open>Saving and loading again\<close>

text \<open>Text without markup is literal.\<close>

lemma html_scan_plain:
  "\<forall>c \<in> set str. c \<noteq> CHR ''&'' \<and> c \<noteq> CHR ''<'' \<and> c \<noteq> CHR 0x00 \<and> c \<noteq> CHR 0x0D \<Longrightarrow>
   html_scan 0 str = Some (Shown str)"
  by (induction str) simp_all

lemma literal_plain:
  "\<forall>c \<in> set str. c \<noteq> CHR ''&'' \<and> c \<noteq> CHR ''<'' \<and> c \<noteq> CHR 0x00 \<and> c \<noteq> CHR 0x0D \<Longrightarrow>
   literal str"
  by (simp add: literal_def html_text_def html_scan_plain)

lemma find_index_complete:
  "\<exists>x \<in> set xs. P x \<Longrightarrow> \<exists>i. find_index P xs = Some i"
  by (induction xs) auto

lemma allocated_nth:
  "allocated s \<longleftrightarrow>
     (\<forall>j < length (columns s). \<forall>a \<in> set (children (columns s ! j)). a < next_node s)"
  by (simp add: allocated_def all_set_conv_all_nth [of "columns s"])

lemma updateCardButtons_texts [simp]:
  "h3_text (updateCardButtons c k) = h3_text c" "p_text (updateCardButtons c k) = p_text c"
  by (simp_all add: updateCardButtons_def Let_def split: option.splits)

text \<open>One turn of the inner loop of \<open>loadData\<close>, for a task whose texts are literal.\<close>

lemma place_new_card:
  assumes "literal_task t" and "i < length (columns s)" and "allocated s"
  shows "\<exists>s2 s3. createCardDOM (title t) (desc t) s = Inr (next_node s, s2) \<and>
      s3 = map_card (next_node s) (\<lambda>c. updateCardButtons c k) (appendChild i (next_node s) s2) \<and>
      map col_id (columns s3) = map col_id (columns s) \<and>
      next_node s3 = Suc (next_node s) \<and>
      (\<forall>j < length (columns s). children (columns s3 ! j) =
         (if j = i then children (columns s ! i) @ [next_node s] else children (columns s ! j))) \<and>
      (\<forall>b. b \<noteq> next_node s \<longrightarrow> cards s3 b = cards s b) \<and>
      h3_text (cards s3 (next_node s)) = title t \<and> p_text (cards s3 (next_node s)) = desc t"
proof -
  let ?a = "next_node s"
  let ?c = "\<lparr>h3_text = title t, p_text = desc t, card_actions = Some [Update, Delete],
      dragging = False, drag_listeners = 0\<rparr>"
  let ?s2 = "attachDragEvents ?a (s\<lparr>cards := (cards s)(?a := ?c), next_node := Suc ?a\<rparr>)"
  let ?s3 = "map_card ?a (\<lambda>c. updateCardButtons c k) (appendChild i ?a ?s2)"
  from assms(1) have "html_scan 0 (title t) = Some (Shown (title t))"
    and "html_scan 0 (desc t) = Some (Shown (desc t))"
    by (auto simp: literal_task_def literal_def html_text_def
        split: option.splits scanned.splits)
  then have c: "createCardDOM (title t) (desc t) s = Inr (?a, ?s2)"
    by (simp add: createCardDOM_def card_template_def Let_def)
  have fresh: "removeAll ?a (children (columns s ! j)) = children (columns s ! j)"
    if "j < length (columns s)" for j
  proof -
    from that assms(3) have "?a \<notin> set (children (columns s ! j))"
      by (auto simp: allocated_nth)
    then show ?thesis by simp
  qed
  have cols2: "columns ?s2 = columns s"
    by (simp add: attachDragEvents_def map_card_def)
  have "columns ?s3 = columns (appendChild i ?a ?s2)"
    by simp
  also have "\<dots> =
      (map (\<lambda>c. c\<lparr>children := removeAll ?a (children c)\<rparr>) (columns s))
        [i := (columns s ! i)\<lparr>children := removeAll ?a (children (columns s ! i)) @ [?a]\<rparr>]"
    using assms(2) by (simp add: appendChild_def map_column_def remove_card_def cols2)
  finally have cols3: "columns ?s3 =
      (map (\<lambda>c. c\<lparr>children := removeAll ?a (children c)\<rparr>) (columns s))
        [i := (columns s ! i)\<lparr>children := removeAll ?a (children (columns s ! i)) @ [?a]\<rparr>]" .
  have ids: "map col_id (columns ?s3) = map col_id (columns s)"
    using assms(2) by (simp only: cols3) (simp add: map_update list_update_same_conv o_def)
  have nxt: "next_node ?s3 = Suc ?a"
    by (simp add: map_card_def appendChild_def map_column_def remove_card_def attachDragEvents_def)
  have ch: "children (columns ?s3 ! j) =
      (if j = i then children (columns s ! i) @ [?a] else children (columns s ! j))"
    if "j < length (columns s)" for j
    using that assms(2) fresh [of j] fresh [of i]
    by (simp only: cols3) (simp add: nth_list_update)
  have cards3: "cards ?s3 =
      (cards s)(?a := updateCardButtons (?c\<lparr>drag_listeners := Suc 0\<rparr>) k)"
    by (simp add: map_card_def appendChild_def map_column_def remove_card_def
        attachDragEvents_def)
  have old: "cards ?s3 b = cards s b" if "b \<noteq> ?a" for b
    using that by (simp add: cards3)
  have texts: "h3_text (cards ?s3 ?a) = title t" "p_text (cards ?s3 ?a) = desc t"
    by (simp_all only: cards3) simp_all
  from c ids nxt ch old texts show ?thesis
    by blast
qed

lemma rebuild_literal:
  assumes "\<forall>t \<in> set tasks. literal_task t" and "i < length (columns s)" and "allocated s"
  shows "\<exists>s1. rebuild i k tasks s = Inr s1 \<and>
      map col_id (columns s1) = map col_id (columns s) \<and>
      allocated s1 \<and> next_node s \<le> next_node s1 \<and>
      (\<forall>b < next_node s. cards s1 b = cards s b) \<and>
      (\<forall>j < length (columns s). j \<noteq> i \<longrightarrow> children (columns s1 ! j) = children (columns s ! j)) \<and>
      column_tasks (cards s1) (columns s1 ! i) = column_tasks (cards s) (columns s ! i) @ tasks"
  using assms
proof (induction tasks arbitrary: s)
  case Nil
  then show ?case by simp
next
  case (Cons t tasks)
  let ?a = "next_node s"
  from Cons.prems(1) have lit: "literal_task t" and lits: "\<forall>t \<in> set tasks. literal_task t"
    by simp_all
  from place_new_card [OF lit Cons.prems(2,3), of k] obtain s2 s3 where
    c: "createCardDOM (title t) (desc t) s = Inr (?a, s2)" and
    s3: "s3 = map_card ?a (\<lambda>c. updateCardButtons c k) (appendChild i ?a s2)" and
    ids: "map col_id (columns s3) = map col_id (columns s)" and
    nxt: "next_node s3 = Suc ?a" and
    ch: "\<And>j. j < length (columns s) \<Longrightarrow> children (columns s3 ! j) =
         (if j = i then children (columns s ! i) @ [?a] else children (columns s ! j))" and
    old: "\<And>b. b \<noteq> ?a \<Longrightarrow> cards s3 b = cards s b" and
    texts: "h3_text (cards s3 ?a) = title t" "p_text (cards s3 ?a) = desc t"
    by blast
  from ids have len: "length (columns s3) = length (columns s)"
    by (rule map_eq_imp_length_eq)
  have alloc3: "allocated s3"
    using Cons.prems(3) by (auto simp: allocated_nth len ch nxt less_Suc_eq)
  from Cons.IH [OF lits _ alloc3] Cons.prems(2) len obtain s1 where
    r: "rebuild i k tasks s3 = Inr s1" and
    ids1: "map col_id (columns s1) = map col_id (columns s3)" and
    alloc1: "allocated s1" and
    nxt1: "next_node s3 \<le> next_node s1" and
    old1: "\<And>b. b < next_node s3 \<Longrightarrow> cards s1 b = cards s3 b" and
    ch1: "\<And>j. j < length (columns s3) \<Longrightarrow> j \<noteq> i \<Longrightarrow>
        children (columns s1 ! j) = children (columns s3 ! j)" and
    tasks1: "column_tasks (cards s1) (columns s1 ! i) =
        column_tasks (cards s3) (columns s3 ! i) @ tasks"
    by auto
  have run: "rebuild i k (t # tasks) s = Inr s1"
    using c r s3 by simp
  have below: "b < ?a" if "b \<in> set (children (columns s ! i))" for b
    using that Cons.prems(2,3) by (auto simp: allocated_nth)
  have "cards s3 b = cards s b" if "b \<in> set (children (columns s ! i))" for b
    using below [OF that] old [of b] by simp
  then have "column_tasks (cards s3) (columns s3 ! i) =
      column_tasks (cards s) (columns s ! i) @ [t]"
    using Cons.prems(2) by (simp add: column_tasks_def ch texts)
  with tasks1 have tasks: "column_tasks (cards s1) (columns s1 ! i) =
      column_tasks (cards s) (columns s ! i) @ t # tasks"
    by simp
  have olds: "cards s1 b = cards s b" if "b < ?a" for b
    using that old1 [of b] old [of b] nxt by simp
  have chs: "children (columns s1 ! j) = children (columns s ! j)"
    if "j < length (columns s)" "j \<noteq> i" for j
    using that ch1 [of j] ch [of j] len by simp
  from run ids ids1 alloc1 nxt nxt1 olds chs tasks show ?case
    by auto
qed


lemma getElementById_unique:
  assumes "k \<noteq> []" and "distinct (map col_id (columns s))"
    and "j < length (columns s)" and "col_id (columns s ! j) = k"
  shows "getElementById k s = Some j"
proof -
  from assms(3,4) have "\<exists>c \<in> set (columns s). col_id c = k"
    by (auto intro!: bexI [of _ "columns s ! j"])
  then have "\<exists>i. find_index (\<lambda>c. col_id c = k) (columns s) = Some i"
    by (rule find_index_complete)
  then obtain i where f: "find_index (\<lambda>c. col_id c = k) (columns s) = Some i" ..
  from find_index_Some [OF f] have i: "i < length (columns s)" "col_id (columns s ! i) = k"
    by simp_all
  with assms(2-4) have "i = j"
    by (auto simp: distinct_conv_nth)
  with f assms(1) show ?thesis
    by (simp add: getElementById_def)
qed

text \<open>
  The outer loop of \<open>loadData\<close>, for keys that name columns and tasks whose texts are
  literal: every column named gets the tasks stored for it, the others keep theirs.
\<close>

lemma load_keys_literal:
  assumes "distinct ks"
    and "\<forall>k \<in> set ks. k \<noteq> [] \<and> k \<in> col_id ` set (columns s) \<and>
           (\<exists>ts. map_of data k = Some ts \<and> (\<forall>t \<in> set ts. literal_task t))"
    and "distinct (map col_id (columns s))" and "allocated s"
  shows "\<exists>s1. load_keys ks data s = Inr s1 \<and>
      map col_id (columns s1) = map col_id (columns s) \<and>
      (\<forall>j < length (columns s).
         column_tasks (cards s1) (columns s1 ! j) =
           (if col_id (columns s ! j) \<in> set ks then the (map_of data (col_id (columns s ! j)))
            else column_tasks (cards s) (columns s ! j)))"
  using assms
proof (induction ks arbitrary: s)
  case Nil
  then show ?case by simp
next
  case (Cons k ks)
  from Cons.prems(2) obtain ts where
    k: "k \<noteq> []" "k \<in> col_id ` set (columns s)" and
    ts: "map_of data k = Some ts" "\<forall>t \<in> set ts. literal_task t"
    by auto
  from k(2) obtain i where i: "i < length (columns s)" "col_id (columns s ! i) = k"
    by (auto simp: in_set_conv_nth)
  have g: "getElementById k s = Some i"
    using k(1) Cons.prems(3) i by (rule getElementById_unique)
  let ?s0 = "clear_cards i s"
  have cols0: "columns ?s0 = (columns s)[i := (columns s ! i)\<lparr>children := []\<rparr>]"
    using i(1) by (simp add: clear_cards_def map_column_def)
  have rest0: "next_node ?s0 = next_node s" "cards ?s0 = cards s"
    by (simp_all add: clear_cards_def map_column_def)
  have ids0: "map col_id (columns ?s0) = map col_id (columns s)"
    using i by (simp add: cols0 map_update list_update_same_conv)
  have alloc0: "allocated ?s0"
    using Cons.prems(4) i(1) by (auto simp: allocated_nth cols0 rest0 nth_list_update)
  have i0: "i < length (columns ?s0)"
    using i(1) by (simp add: cols0)
  from rebuild_literal [OF ts(2) i0 alloc0, of k] obtain s2 where
    r: "rebuild i k ts ?s0 = Inr s2" and
    ids2: "map col_id (columns s2) = map col_id (columns ?s0)" and
    alloc2: "allocated s2" and
    old2: "\<And>b. b < next_node ?s0 \<Longrightarrow> cards s2 b = cards ?s0 b" and
    ch2: "\<And>j. j < length (columns ?s0) \<Longrightarrow> j \<noteq> i \<Longrightarrow>
        children (columns s2 ! j) = children (columns ?s0 ! j)" and
    tasks2: "column_tasks (cards s2) (columns s2 ! i) =
        column_tasks (cards ?s0) (columns ?s0 ! i) @ ts"
    by auto
  let ?s3 = "updateCount i s2"
  from ids2 ids0 have len2: "length (columns s2) = length (columns s)"
    by (metis length_map)
  have cols3: "columns ?s3 ! j = columns s2 ! j" if "j \<noteq> i" for j
    using that by (simp add: updateCount_def map_column_def)
  have ch3: "children (columns ?s3 ! j) = children (columns s2 ! j)"
    and id3: "col_id (columns ?s3 ! j) = col_id (columns s2 ! j)" for j
    by (simp_all add: updateCount_def map_column_def nth_list_update split: option.splits)
  have rest3: "next_node ?s3 = next_node s2" "cards ?s3 = cards s2"
    "length (columns ?s3) = length (columns s)"
    by (simp_all add: updateCount_def map_column_def len2)
  have ids3: "map col_id (columns ?s3) = map col_id (columns s)"
  proof (rule nth_equalityI)
    show "length (map col_id (columns ?s3)) = length (map col_id (columns s))"
      by (simp add: rest3)
  next
    fix j
    assume "j < length (map col_id (columns ?s3))"
    then have j: "j < length (columns s)"
      by (simp add: rest3)
    from ids2 ids0 have "map col_id (columns s2) ! j = map col_id (columns s) ! j"
      by simp
    with j show "map col_id (columns ?s3) ! j = map col_id (columns s) ! j"
      by (simp add: rest3 len2 id3)
  qed
  have alloc3: "allocated ?s3"
    using alloc2 by (simp add: allocated_nth rest3 len2 ch3)
  have dist3: "distinct (map col_id (columns ?s3))"
    using Cons.prems(3) by (simp add: ids3)
  have keys3: "\<forall>k \<in> set ks. k \<noteq> [] \<and> k \<in> col_id ` set (columns ?s3) \<and>
      (\<exists>ts. map_of data k = Some ts \<and> (\<forall>t \<in> set ts. literal_task t))"
  proof -
    have "col_id ` set (columns ?s3) = col_id ` set (columns s)"
      using ids3 by (metis set_map)
    with Cons.prems(2) show ?thesis
      by simp
  qed
  from Cons.prems(1) have dks: "distinct ks" and knew: "k \<notin> set ks"
    by simp_all
  from Cons.IH [OF dks keys3 dist3 alloc3] obtain s1 where
    l: "load_keys ks data ?s3 = Inr s1" and
    ids1: "map col_id (columns s1) = map col_id (columns ?s3)" and
    tasks1: "\<And>j. j < length (columns ?s3) \<Longrightarrow>
      column_tasks (cards s1) (columns s1 ! j) =
        (if col_id (columns ?s3 ! j) \<in> set ks then the (map_of data (col_id (columns ?s3 ! j)))
         else column_tasks (cards ?s3) (columns ?s3 ! j))"
    by auto
  have run: "load_keys (k # ks) data s = Inr s1"
    using g ts(1) r l by simp
  have same_id: "col_id (columns ?s3 ! j) = col_id (columns s ! j)" if "j < length (columns s)" for j
  proof -
    from ids3 have "map col_id (columns ?s3) ! j = map col_id (columns s) ! j"
      by simp
    with that show ?thesis
      by (simp add: rest3)
  qed
  have result: "column_tasks (cards s1) (columns s1 ! j) =
      (if col_id (columns s ! j) \<in> set (k # ks) then the (map_of data (col_id (columns s ! j)))
       else column_tasks (cards s) (columns s ! j))"
    if j: "j < length (columns s)" for j
  proof (cases "j = i")
    case True
    have "column_tasks (cards ?s3) (columns ?s3 ! i) = ts"
      using tasks2 i(1) by (simp add: column_tasks_def ch3 rest3 cols0)
    with tasks1 [of i] i knew same_id [of i] True ts(1) show ?thesis
      by (simp add: rest3)
  next
    case False
    with j i Cons.prems(3) have ne: "col_id (columns s ! j) \<noteq> k"
      by (auto simp: distinct_conv_nth)
    have below: "b < next_node s" if "b \<in> set (children (columns s ! j))" for b
      using that j Cons.prems(4) by (auto simp: allocated_nth)
    have "children (columns ?s3 ! j) = children (columns s ! j)"
      using False j ch2 [of j] by (simp add: ch3 cols0)
    moreover have "cards ?s3 b = cards s b" if "b \<in> set (children (columns s ! j))" for b
      using below [OF that] old2 [of b] by (simp add: rest3 rest0)
    ultimately have "column_tasks (cards ?s3) (columns ?s3 ! j) =
        column_tasks (cards s) (columns s ! j)"
      by (simp add: column_tasks_def)
    with tasks1 [of j] j ne same_id [of j] show ?thesis
      by (simp add: rest3)
  qed
  from run ids1 ids3 result show ?case
    by auto
qed

lemma distinct_own_keys: "distinct (own_keys d)"
  by (auto simp: own_keys_def Let_def)

text \<open>
  What holds of the round trip: on a board whose columns have distinct, non-empty ids,
  none of them \<open>__proto__\<close>, and whose cards show literal texts, \<open>loadData\<close> after
  \<open>saveData\<close> returns a board with the same tasks, column by column, in the same order.
\<close>

lemma roundtrip_literal:
  assumes "distinct (map col_id (columns s))" and "[] \<notin> col_id ` set (columns s)"
    and "\<forall>c \<in> set (columns s). \<forall>a \<in> set (children c).
           literal (h3_text (cards s a)) \<and> literal (p_text (cards s a))"
    and "''__proto__'' \<notin> col_id ` set (columns s)"
  shows "\<exists>s1. loadData (saveData s) = Inr s1 \<and> board_tasks s1 = board_tasks s"
proof -
  let ?data = "board_tasks s"
  let ?sv = "saveData s"
  have data: "localStorage ?sv STORAGE_KEY = Some ?data"
    using fold_assign_fresh [OF assms(1,4), of "[]" "column_tasks (cards s)"]
    by (simp add: saveData_def board_tasks_def Let_def)
  have sv: "columns ?sv = columns s" "cards ?sv = cards s"
    by (simp_all add: saveData_def Let_def)
  let ?s0 = "fold clear_cards [0..<length (columns ?sv)] ?sv"
  have cols0: "columns ?s0 = map (\<lambda>c. c\<lparr>children := []\<rparr>) (columns s)"
    using fold_clear_cards_all [of ?sv] by (simp add: sv)
  have ids0: "map col_id (columns ?s0) = map col_id (columns s)"
    by (simp add: cols0 o_def)
  have alloc0: "allocated ?s0"
    by (simp add: allocated_def cols0)
  have keys: "\<forall>k \<in> set (own_keys ?data). k \<noteq> [] \<and> k \<in> col_id ` set (columns ?s0) \<and>
      (\<exists>ts. map_of ?data k = Some ts \<and> (\<forall>t \<in> set ts. literal_task t))"
  proof
    fix k
    assume "k \<in> set (own_keys ?data)"
    then obtain c where c: "c \<in> set (columns s)" "k = col_id c"
      by (auto simp: set_own_keys board_tasks_def)
    with assms(2) have "k \<noteq> []"
      by (metis imageI)
    moreover from c have "k \<in> col_id ` set (columns ?s0)"
      by (simp add: cols0 image_image)
    moreover have "map_of ?data k = Some (column_tasks (cards s) c)"
      using assms(1) c by (simp add: board_tasks_def map_of_board_tasks)
    moreover have "\<forall>t \<in> set (column_tasks (cards s) c). literal_task t"
      using assms(3) c(1) by (auto simp: column_tasks_def literal_task_def)
    ultimately show "k \<noteq> [] \<and> k \<in> col_id ` set (columns ?s0) \<and>
        (\<exists>ts. map_of ?data k = Some ts \<and> (\<forall>t \<in> set ts. literal_task t))"
      by simp
  qed
  have dist0: "distinct (map col_id (columns ?s0))"
    using assms(1) by (simp add: ids0)
  from load_keys_literal [OF distinct_own_keys keys dist0 alloc0] obtain s1 where
    l: "load_keys (own_keys ?data) ?data ?s0 = Inr s1" and
    ids1: "map col_id (columns s1) = map col_id (columns ?s0)" and
    tasks1: "\<And>j. j < length (columns ?s0) \<Longrightarrow>
      column_tasks (cards s1) (columns s1 ! j) =
        (if col_id (columns ?s0 ! j) \<in> set (own_keys ?data)
         then the (map_of ?data (col_id (columns ?s0 ! j)))
         else column_tasks (cards ?s0) (columns ?s0 ! j))"
    by auto
  have loaded: "loadData ?sv = Inr s1"
    using data l by (simp add: loadData_def)
  from ids1 ids0 have len1: "length (columns s1) = length (columns s)"
    by (metis length_map)
  have "board_tasks s1 = board_tasks s"
    unfolding board_tasks_def
  proof (rule nth_equalityI)
    show "length (map (\<lambda>c. (col_id c, column_tasks (cards s1) c)) (columns s1)) =
        length (map (\<lambda>c. (col_id c, column_tasks (cards s) c)) (columns s))"
      by (simp add: len1)
  next
    fix j
    assume "j < length (map (\<lambda>c. (col_id c, column_tasks (cards s1) c)) (columns s1))"
    then have j: "j < length (columns s)"
      by (simp add: len1)
    then have mem: "columns s ! j \<in> set (columns s)"
      by simp
    from ids1 ids0 have "map col_id (columns s1) ! j = map col_id (columns s) ! j"
      by simp
    with j have id: "col_id (columns s1 ! j) = col_id (columns s ! j)"
      by (simp add: len1)
    have key: "col_id (columns s ! j) \<in> set (own_keys ?data)"
      using mem by (auto simp: set_own_keys board_tasks_def image_image)
    have "column_tasks (cards s1) (columns s1 ! j) = column_tasks (cards s) (columns s ! j)"
      using tasks1 [of j] j key assms(1) mem
      by (simp add: cols0 board_tasks_def map_of_board_tasks)
    with id j show "map (\<lambda>c. (col_id c, column_tasks (cards s1) c)) (columns s1) ! j =
        map (\<lambda>c. (col_id c, column_tasks (cards s) c)) (columns s) ! j"
      by (simp add: len1)
  qed
  with loaded show ?thesis
    by blast
qed

text \<open>
  C1, at a concrete board. On the example board the card 0 is edited: its title becomes
  the five characters \<open>&amp;\<close> (the listener assigns \<open>textContent\<close>, so the card shows
  them as they are, and \<open>saveData\<close> stores them). \<open>loadData\<close> then builds the card again
  with \<open>createCardDOM\<close>, which writes the stored title into \<open>innerHTML\<close>: the card that
  comes back is titled \<open>&\<close>.
\<close>

theorem roundtrip_decodes_references:
  "map_sum id board_tasks (run [Click_update 0, Input_title ''&amp;'', Submit] example_board) =
     Inr [(''todo'', [\<lparr>title = ''&amp;'', desc = ''x''\<rparr>]), (''done'', [])] \<and>
   map_sum id (\<lambda>s. map_sum id board_tasks (loadData (saveData s)))
     (run [Click_update 0, Input_title ''&amp;'', Submit] example_board) =
     Inr (Inr [(''todo'', [\<lparr>title = ''&'', desc = ''x''\<rparr>]), (''done'', [])])"
  by (simp add: model_defs)

section \<open>The update button and the allow-list\<close>

text \<open>The invariant, column by column.\<close>

lemma board_inv_nth:
  "board_inv s \<longleftrightarrow>
     (\<forall>m < length (columns s). \<forall>b \<in> set (children (columns s ! m)).
        b < next_node s \<and> single_update (cards s b) \<and>
        (shows_update (cards s b) \<longrightarrow> needsUpdate (col_id (columns s ! m)))) \<and>
     (\<forall>a. draggedCard s = Some a \<longrightarrow> a < next_node s \<and> single_update (cards s a))"
  by (auto simp: board_inv_def nodes_ok_def allocated_def policy_ok_def buttons_ok_def
      all_set_conv_all_nth [of "columns s"] split: option.splits)

lemma board_inv_same:
  assumes "board_inv s" and "columns s1 = columns s" and "next_node s1 = next_node s"
    and "draggedCard s1 = draggedCard s"
    and "\<And>a. card_actions (cards s1 a) = card_actions (cards s a)"
  shows "board_inv s1"
  using assms by (simp add: board_inv_nth shows_update_def single_update_def)

lemma board_inv_map_column:
  assumes "board_inv s" and "\<And>c. set (children (f c)) \<subseteq> set (children c)"
    and "\<And>c. col_id (f c) = col_id c"
  shows "board_inv (map_column i f s)"
proof (cases "i < length (columns s)")
  case False
  with assms(1) show ?thesis
    by (simp add: map_column_def)
next
  case True
  have "set (children (f (columns s ! i))) \<subseteq> set (children (columns s ! i))"
    by (rule assms(2))
  with assms(1,3) True show ?thesis
    by (auto simp: board_inv_nth map_column_def nth_list_update)
qed

lemma board_inv_remove_card: "board_inv s \<Longrightarrow> board_inv (remove_card a s)"
  by (auto simp: board_inv_nth remove_card_def)

lemma shows_update_updateCardButtons:
  "single_update c \<Longrightarrow> shows_update (updateCardButtons c k) \<Longrightarrow> needsUpdate k"
  by (auto simp: updateCardButtons_def shows_update_def single_update_def Let_def
      single_remove1 split: option.splits if_splits)

lemma single_update_updateCardButtons:
  "single_update c \<Longrightarrow> single_update (updateCardButtons c k)"
  by (auto simp: updateCardButtons_def single_update_def Let_def count_list_remove1
      split: option.splits)

lemma board_inv_place:
  assumes "board_inv s" and "a < next_node s" and "i < length (columns s)"
    and "single_update (cards s a)"
  shows "board_inv (map_card a (\<lambda>c. updateCardButtons c (col_id (columns s ! i)))
           (appendChild i a s))"
proof -
  let ?s1 = "map_card a (\<lambda>c. updateCardButtons c (col_id (columns s ! i))) (appendChild i a s)"
  have cols: "columns (appendChild i a s) =
      (map (\<lambda>c. c\<lparr>children := removeAll a (children c)\<rparr>) (columns s))
        [i := (columns s ! i)\<lparr>children := removeAll a (children (columns s ! i)) @ [a]\<rparr>]"
    using assms(3) by (simp add: appendChild_def map_column_def remove_card_def)
  have cards: "cards ?s1 = (cards s)(a := updateCardButtons (cards s a) (col_id (columns s ! i)))"
    by (simp add: map_card_def appendChild_def map_column_def remove_card_def)
  have rest: "next_node ?s1 = next_node s" "draggedCard ?s1 = draggedCard s"
    by (simp_all add: map_card_def appendChild_def map_column_def remove_card_def)
  have "b < next_node s \<and> single_update (cards ?s1 b) \<and>
        (shows_update (cards ?s1 b) \<longrightarrow> needsUpdate (col_id (columns ?s1 ! m)))"
    if m: "m < length (columns s)"
      and b: "b \<in> set (children (columns (appendChild i a s) ! m))" for m b
  proof (cases "b = a")
    case True
    with b m assms(3) have "m = i"
      by (auto simp: cols nth_list_update split: if_splits)
    with True assms(2,3,4) show ?thesis
      by (auto simp: cols cards single_update_updateCardButtons
          dest: shows_update_updateCardButtons [rotated])
  next
    case False
    with b m assms(3) have "b \<in> set (children (columns s ! m))"
      by (auto simp: cols nth_list_update split: if_splits)
    moreover have "col_id (columns (appendChild i a s) ! m) = col_id (columns s ! m)"
      using m assms(3) by (simp add: cols nth_list_update)
    ultimately show ?thesis
      using assms(1) m False by (simp add: board_inv_nth cards)
  qed
  moreover have "single_update (cards ?s1 d)" if "draggedCard s = Some d" for d
    using that assms(1,4) by (simp add: board_inv_nth cards single_update_updateCardButtons)
  moreover have "length (columns (appendChild i a s)) = length (columns s)"
    by (simp add: cols)
  ultimately show ?thesis
    using assms(1) by (simp add: board_inv_nth [of ?s1] rest) (simp add: board_inv_nth)
qed

lemma card_template_actions:
  "card_template ttl dsc = Inr c \<Longrightarrow>
   card_actions c = None \<or> card_actions c = Some [Update, Delete]"
  by (auto simp: card_template_def split: option.splits scanned.splits)

lemma board_inv_createCardDOM:
  assumes "createCardDOM ttl dsc s = Inr (a, s1)" and "board_inv s"
  shows "board_inv s1 \<and> a < next_node s1 \<and> columns s1 = columns s \<and>
    (card_actions (cards s1 a) = None \<or> card_actions (cards s1 a) = Some [Update, Delete])"
proof -
  from assms(1) obtain c where ct: "card_template ttl dsc = Inr c"
    by (cases "card_template ttl dsc") (simp_all add: createCardDOM_def)
  with assms(1) have
    s1: "s1 = attachDragEvents (next_node s)
           (s\<lparr>cards := (cards s)(next_node s := c), next_node := Suc (next_node s)\<rparr>)"
    and a: "a = next_node s"
    by (auto simp: createCardDOM_def Let_def)
  have same: "columns s1 = columns s" "next_node s1 = Suc (next_node s)"
    "draggedCard s1 = draggedCard s"
    by (simp_all add: s1 attachDragEvents_def map_card_def)
  have old: "cards s1 b = cards s b" if "b < next_node s" for b
    using that by (simp add: s1 attachDragEvents_def map_card_def)
  have new: "card_actions (cards s1 (next_node s)) = card_actions c"
    by (simp add: s1 attachDragEvents_def map_card_def)
  have "b < next_node s \<and> single_update (cards s1 b) \<and>
        (shows_update (cards s1 b) \<longrightarrow> needsUpdate (col_id (columns s ! m)))"
    if "m < length (columns s)" and "b \<in> set (children (columns s ! m))" for m b
  proof -
    from that assms(2) have
      b: "b < next_node s \<and> single_update (cards s b) \<and>
          (shows_update (cards s b) \<longrightarrow> needsUpdate (col_id (columns s ! m)))"
      by (simp add: board_inv_nth)
    with old [of b] show ?thesis
      by simp
  qed
  moreover have "a1 < next_node s \<and> single_update (cards s1 a1)"
    if "draggedCard s = Some a1" for a1
  proof -
    from that assms(2) have "a1 < next_node s \<and> single_update (cards s a1)"
      by (simp add: board_inv_nth)
    with old [of a1] show ?thesis
      by simp
  qed
  ultimately show ?thesis
    using a card_template_actions [OF ct]
    by (simp add: board_inv_nth [of s1] same less_Suc_eq new)
qed

lemma single_update_new:
  "card_actions c = None \<or> card_actions c = Some [Update, Delete] \<Longrightarrow> single_update c"
  by (auto simp: single_update_def)

lemma rebuild_inv:
  "rebuild i k tasks s = Inr s1 \<Longrightarrow> board_inv s \<Longrightarrow> i < length (columns s) \<Longrightarrow>
   col_id (columns s ! i) = k \<Longrightarrow>
   board_inv s1 \<and> length (columns s1) = length (columns s)"
proof (induction tasks arbitrary: s)
  case Nil
  then show ?case by simp
next
  case (Cons t tasks)
  from Cons.prems(1) obtain a s2 where
    c: "createCardDOM (title t) (desc t) s = Inr (a, s2)" and
    r: "rebuild i k tasks (map_card a (\<lambda>c. updateCardButtons c k) (appendChild i a s2)) = Inr s1"
    by (auto split: sum.splits)
  let ?s3 = "map_card a (\<lambda>c. updateCardButtons c k) (appendChild i a s2)"
  from board_inv_createCardDOM [OF c Cons.prems(2)]
  have s2: "board_inv s2" "a < next_node s2" "columns s2 = columns s"
    and single: "single_update (cards s2 a)"
    by (simp_all add: single_update_new)
  with Cons.prems(3,4) have i2: "i < length (columns s2)" "col_id (columns s2 ! i) = k"
    by simp_all
  from board_inv_place [OF s2(1,2) i2(1) single] i2(2) have inv3: "board_inv ?s3"
    by simp
  have len3: "length (columns ?s3) = length (columns s)"
    by (simp add: appendChild_def s2(3))
  have id3: "col_id (columns ?s3 ! i) = k"
    using i2 by (simp add: appendChild_def map_column_def remove_card_def)
  from Cons.IH [OF r inv3] len3 id3 Cons.prems(3) show ?case
    by simp
qed

lemma board_inv_clear_cards: "board_inv s \<Longrightarrow> board_inv (clear_cards i s)"
  unfolding clear_cards_def by (rule board_inv_map_column) simp_all

lemma board_inv_updateCount: "board_inv s \<Longrightarrow> board_inv (updateCount i s)"
  unfolding updateCount_def by (rule board_inv_map_column) (simp_all split: option.splits)

lemma load_keys_inv:
  "load_keys ks data s = Inr s1 \<Longrightarrow> board_inv s \<Longrightarrow> board_inv s1"
proof (induction ks arbitrary: s)
  case Nil
  then show ?case by simp
next
  case (Cons k ks)
  show ?case
  proof (cases "getElementById k s")
    case None
    with Cons show ?thesis by simp
  next
    case (Some i)
    then have i: "i < length (columns s)" "col_id (columns s ! i) = k"
      by (auto dest: getElementById_Some)
    from Cons.prems(1) Some obtain tasks s2 where
      r: "rebuild i k tasks (clear_cards i s) = Inr s2" and
      l: "load_keys ks data (updateCount i s2) = Inr s1"
      by (auto split: option.splits sum.splits)
    have c: "i < length (columns (clear_cards i s))" "col_id (columns (clear_cards i s) ! i) = k"
      using i by (simp_all add: clear_cards_def map_column_def)
    from rebuild_inv [OF r board_inv_clear_cards [OF Cons.prems(2)] c]
    have "board_inv s2" by simp
    then have "board_inv (updateCount i s2)"
      by (rule board_inv_updateCount)
    with Cons.IH [OF l] show ?thesis .
  qed
qed

lemma fold_clear_cards_inv: "board_inv s \<Longrightarrow> board_inv (fold clear_cards is s)"
  by (induction "is" arbitrary: s) (simp_all add: board_inv_clear_cards)

lemma fold_updateCount_inv: "board_inv s \<Longrightarrow> board_inv (fold updateCount is s)"
  by (induction "is" arbitrary: s) (simp_all add: board_inv_updateCount)

lemma board_inv_attachDragEvents: "board_inv s \<Longrightarrow> board_inv (attachDragEvents a s)"
  by (erule board_inv_same) (simp_all add: attachDragEvents_def map_card_def)

lemma fold_attachDragEvents_inv: "board_inv s \<Longrightarrow> board_inv (fold attachDragEvents as s)"
  by (induction as arbitrary: s) (simp_all add: board_inv_attachDragEvents)

lemma board_inv_saveData: "board_inv s \<Longrightarrow> board_inv (saveData s)"
  by (erule board_inv_same) (simp_all add: saveData_def Let_def)

lemma loadData_inv: "loadData s = Inr s1 \<Longrightarrow> board_inv s \<Longrightarrow> board_inv s1"
  by (auto simp: loadData_def split: option.splits
      dest!: load_keys_inv intro: fold_clear_cards_inv)

lemma board_inv_closeModal: "board_inv s \<Longrightarrow> board_inv (closeModal s)"
  by (erule board_inv_same) (simp_all add: closeModal_def)

lemma board_inv_dragstart:
  "board_inv s \<Longrightarrow> a < next_node s \<Longrightarrow> single_update (cards s a) \<Longrightarrow>
   board_inv (dragstart a s)"
  by (auto simp: board_inv_nth dragstart_def map_card_def shows_update_def single_update_def)

lemma funpow_dragstart_inv:
  "board_inv s \<Longrightarrow> a < next_node s \<Longrightarrow> single_update (cards s a) \<Longrightarrow>
   board_inv ((dragstart a ^^ n) s)"
proof (induction n)
  case 0
  then show ?case by simp
next
  case (Suc n)
  moreover have "next_node ((dragstart a ^^ n) s) = next_node s"
    by (induction n) (simp_all add: dragstart_def map_card_def)
  moreover have "card_actions (cards ((dragstart a ^^ n) s) a) = card_actions (cards s a)"
    by (induction n) (simp_all add: dragstart_def map_card_def)
  ultimately show ?case
    by (simp add: board_inv_dragstart single_update_def)
qed

lemma board_inv_dragend: "board_inv s \<Longrightarrow> board_inv (dragend a s)"
  by (auto simp: board_inv_nth dragend_def saveData_def map_card_def shows_update_def
      single_update_def Let_def)

lemma funpow_dragend_inv: "board_inv s \<Longrightarrow> board_inv ((dragend a ^^ n) s)"
  by (induction n) (simp_all add: board_inv_dragend)

lemma all_cards_allocated:
  "board_inv s \<Longrightarrow> a \<in> set (all_cards s) \<Longrightarrow> a < next_node s"
  by (auto simp: board_inv_def nodes_ok_def allocated_def all_cards_def)

lemma all_cards_single:
  "board_inv s \<Longrightarrow> a \<in> set (all_cards s) \<Longrightarrow> single_update (cards s a)"
  by (auto simp: board_inv_def buttons_ok_def all_cards_def)

lemma board_inv_drop_on:
  assumes "board_inv s" and "i < length (columns s)"
  shows "board_inv (drop_on i s)"
proof -
  let ?s1 = "map_column i (\<lambda>c. c\<lparr>drag_over := False\<rparr>) s"
  have inv1: "board_inv ?s1"
    using assms(1) by (rule board_inv_map_column) simp_all
  have rest: "draggedCard ?s1 = draggedCard s" "next_node ?s1 = next_node s"
    "i < length (columns ?s1)"
    using assms(2) by (simp_all add: map_column_def)
  show ?thesis
  proof (cases "draggedCard s")
    case None
    with inv1 rest show ?thesis
      by (simp add: drop_on_def Let_def)
  next
    case (Some a)
    with assms(1) have "a < next_node ?s1" "single_update (cards ?s1 a)"
      by (simp_all add: board_inv_nth rest map_column_def)
    from board_inv_place [OF inv1 this(1) rest(3) this(2)] Some rest(1) show ?thesis
      by (simp add: drop_on_def Let_def board_inv_saveData board_inv_updateCount)
  qed
qed

lemma board_inv_click_delete: "board_inv s \<Longrightarrow> board_inv (click_delete a ok s)"
  by (simp add: click_delete_def board_inv_saveData board_inv_updateCount
      board_inv_remove_card split: option.splits)

lemma board_inv_submit:
  assumes "submit s = Inr s1" and "board_inv s"
  shows "board_inv s1"
proof (cases "trim (task_title s) = []")
  case True
  with assms show ?thesis by (simp add: submit_def)
next
  case False
  let ?t = "trim (task_title s)" and ?d = "trim (task_desc s)"
  show ?thesis
  proof (cases "editingCard s")
    case (Some a)
    let ?s2 = "map_card a (\<lambda>c. c\<lparr>h3_text := ?t, p_text := ?d\<rparr>) s"
    have "board_inv ?s2"
      using assms(2) by (rule board_inv_same) (simp_all add: map_card_def)
    moreover from assms(1) False Some have
      "s1 = closeModal (saveData (fold updateCount [0..<length (columns ?s2)] ?s2))"
      by (simp add: submit_def Let_def)
    ultimately show ?thesis
      by (simp add: board_inv_closeModal board_inv_saveData fold_updateCount_inv)
  next
    case None
    from assms(1) False None obtain a s2 i where
      c: "createCardDOM ?t ?d s = Inr (a, s2)" and
      f: "find_index (\<lambda>c. col_id c = ''todo'') (columns s2) = Some i" and
      s1: "s1 = closeModal (saveData
             (fold updateCount [0..<length (columns (appendChild i a s2))] (appendChild i a s2)))"
      by (auto simp: submit_def Let_def split: sum.splits option.splits)
    from board_inv_createCardDOM [OF c assms(2)]
    have s2: "board_inv s2" "a < next_node s2"
      and new: "card_actions (cards s2 a) = None \<or>
                card_actions (cards s2 a) = Some [Update, Delete]"
      by simp_all
    from find_index_Some [OF f] have i: "i < length (columns s2)" "col_id (columns s2 ! i) = ''todo''"
      by simp_all
    have "updateCardButtons (cards s2 a) ''todo'' = cards s2 a"
      using new by (cases "cards s2 a")
        (auto simp: updateCardButtons_def needsUpdate_def UPDATE_ALLOWED_COLUMNS_def Let_def)
    then have "map_card a (\<lambda>c. updateCardButtons c (col_id (columns s2 ! i))) (appendChild i a s2)
        = appendChild i a s2"
      by (simp add: map_card_def i(2) appendChild_def map_column_def remove_card_def)
    with board_inv_place [OF s2 i(1) single_update_new [OF new]]
    have "board_inv (appendChild i a s2)"
      by simp
    with s1 show ?thesis
      by (simp add: board_inv_closeModal board_inv_saveData fold_updateCount_inv)
  qed
qed

lemma handle_inv: "handle e s = Inr s1 \<Longrightarrow> board_inv s \<Longrightarrow> board_inv s1"
proof (cases e)
  case DOMContentLoaded
  assume "handle e s = Inr s1" "board_inv s"
  with DOMContentLoaded show ?thesis
    by (auto split: sum.splits dest: loadData_inv intro: fold_attachDragEvents_inv)
next
  case (Dragstart a)
  assume "handle e s = Inr s1" "board_inv s"
  with Dragstart show ?thesis
    by (auto simp: funpow_dragstart_inv all_cards_allocated all_cards_single)
next
  case (Dragend a)
  assume "handle e s = Inr s1" "board_inv s"
  with Dragend show ?thesis
    by (auto simp: funpow_dragend_inv)
next
  case (Dragover i)
  assume "handle e s = Inr s1" "board_inv s"
  with Dragover show ?thesis
    by (auto simp: dragover_def intro!: board_inv_map_column)
next
  case (Dragleave i)
  assume "handle e s = Inr s1" "board_inv s"
  with Dragleave show ?thesis
    by (auto simp: dragleave_def intro!: board_inv_map_column)
next
  case (Drop i)
  assume "handle e s = Inr s1" "board_inv s"
  with Drop show ?thesis
    by (auto simp: board_inv_drop_on)
next
  case (Click_update a)
  assume "handle e s = Inr s1" "board_inv s"
  with Click_update show ?thesis
    by (auto simp: click_update_def openEditModal_def elim!: board_inv_same)
next
  case (Click_delete a ok)
  assume "handle e s = Inr s1" "board_inv s"
  with Click_delete show ?thesis
    by (auto simp: board_inv_click_delete)
next
  case Click_add
  assume "handle e s = Inr s1" "board_inv s"
  with Click_add show ?thesis
    by (auto simp: openAddModal_def elim!: board_inv_same)
next
  case Click_cancel
  assume "handle e s = Inr s1" "board_inv s"
  with Click_cancel show ?thesis
    by (auto simp: board_inv_closeModal)
next
  case Click_overlay
  assume "handle e s = Inr s1" "board_inv s"
  with Click_overlay show ?thesis
    by (auto simp: board_inv_closeModal)
next
  case (Input_title v)
  assume "handle e s = Inr s1" "board_inv s"
  with Input_title show ?thesis
    by (auto elim!: board_inv_same)
next
  case (Input_desc v)
  assume "handle e s = Inr s1" "board_inv s"
  with Input_desc show ?thesis
    by (auto elim!: board_inv_same)
next
  case Submit
  assume "handle e s = Inr s1" "board_inv s"
  with Submit show ?thesis
    by (auto dest: board_inv_submit)
qed

lemma run_inv: "run es s = Inr s1 \<Longrightarrow> board_inv s \<Longrightarrow> board_inv s1"
  by (induction es arbitrary: s) (auto split: sum.splits dest: handle_inv)

lemma draggedCard_fold_clear_cards [simp]:
  "draggedCard (fold clear_cards is s) = draggedCard s"
  by (induction "is" arbitrary: s) (simp_all add: clear_cards_def map_column_def)

text \<open>
  With a stored snapshot, \<open>loadData\<close> establishes the invariant whatever the static markup
  was: it removes every card before it builds the stored ones.
\<close>

lemma loadData_establishes_inv:
  assumes "localStorage s STORAGE_KEY = Some data" and "draggedCard s = None"
    and "loadData s = Inr s1"
  shows "board_inv s1"
proof -
  let ?s0 = "fold clear_cards [0..<length (columns s)] s"
  have "board_inv ?s0"
    using assms(2) by (simp add: board_inv_nth fold_clear_cards_all)
  moreover from assms(1,3) have "load_keys (own_keys data) data ?s0 = Inr s1"
    by (simp add: loadData_def)
  ultimately show ?thesis
    by (rule load_keys_inv [rotated])
qed

text \<open>
  On the boards of this development, whose cards hold a title, a description and an action
  region, the update button follows the column. From a board on which no card outside the
  allow-list shows the update button, whose cards are nodes that exist and hold at most one
  update button each, no sequence of events that runs to an end leads to a board on which
  a card outside the allow-list shows it; and when the page starts by loading a stored
  snapshot, this holds of every board that follows, whatever the static markup held.

  C9 says it of every run, and that fails in the script: a run ends in
  \<open>Unmodelled_markup\<close> when \<open>createCardDOM\<close> is given a text outside the model, and for a
  text with a tag in it the parser builds elements of the text's own inside the card, a
  button of class \<open>update\<close> among them if the text says so. \<open>updateCardButtons\<close> looks
  for buttons in the action region only, so that button stays in whatever column the card
  is put.
\<close>

lemma policy_kept_by_events:
  "(board_inv s0 \<and> run es s0 = Inr s \<longrightarrow> policy_ok s) \<and>
   (localStorage s0 STORAGE_KEY = Some data \<and> draggedCard s0 = None \<and>
    run (DOMContentLoaded # es) s0 = Inr s \<longrightarrow> policy_ok s)"
proof (intro conjI impI)
  assume "board_inv s0 \<and> run es s0 = Inr s"
  then have "board_inv s0" and "run es s0 = Inr s"
    by simp_all
  then have "board_inv s"
    by (rule run_inv [rotated])
  then show "policy_ok s"
    by (simp add: board_inv_def)
next
  assume a: "localStorage s0 STORAGE_KEY = Some data \<and> draggedCard s0 = None \<and>
    run (DOMContentLoaded # es) s0 = Inr s"
  then obtain s1 s2 where
    l: "loadData s0 = Inr s1" and
    s2: "s2 = fold attachDragEvents (all_cards s1) s1" and
    r: "run es s2 = Inr s"
    by (auto split: sum.splits)
  from a l have "board_inv s1"
    by (auto intro: loadData_establishes_inv)
  then have "board_inv s2"
    unfolding s2 by (rule fold_attachDragEvents_inv)
  with r have "board_inv s"
    by (rule run_inv)
  then show "policy_ok s"
    by (simp add: board_inv_def)
qed

lemma policy_kept_by_events_example:
  "board_inv example_board \<and>
   (\<exists>s. run [Dragstart 0, Drop 1, Dragend 0, Click_add, Input_title ''B'', Submit]
          example_board = Inr s \<and> policy_ok s) \<and>
   (\<exists>s. run [DOMContentLoaded, Click_add, Input_title ''B'', Submit]
          partial_snapshot_board = Inr s \<and> policy_ok s)"
proof -
  let ?es = "[Dragstart 0, Drop 1, Dragend 0, Click_add, Input_title ''B'', Submit]"
  let ?es2 = "[Click_add, Input_title ''B'', Submit]"
  have n: "board_inv example_board"
    by (simp add: board_inv_def nodes_ok_def allocated_def policy_ok_def buttons_ok_def
        single_update_def model_defs)
  obtain s where r: "run ?es example_board = Inr s"
    by (cases "run ?es example_board") (simp_all add: model_defs)
  have st: "localStorage partial_snapshot_board STORAGE_KEY = Some [(''done'', [])]"
    by (simp add: partial_snapshot_board_def model_defs)
  have dr: "draggedCard partial_snapshot_board = None"
    by (simp add: partial_snapshot_board_def model_defs)
  obtain s2 where r2: "run (DOMContentLoaded # ?es2) partial_snapshot_board = Inr s2"
    by (cases "run (DOMContentLoaded # ?es2) partial_snapshot_board")
      (simp_all add: partial_snapshot_board_def model_defs)
  from policy_kept_by_events [of example_board ?es s]
    policy_kept_by_events [of partial_snapshot_board ?es2 s2 "[(''done'', [])]"]
    n r st dr r2
  show ?thesis
    by blast
qed

end
